theory Spec2Isabelle
  imports Complex_Main "HOL-Library.Word"
begin

unbundle bit_operations_syntax

section \<open>JavaScript strings\<close>

text \<open>
  A JavaScript string is modelled as a \<^typ>\<open>string\<close> whose characters are the code
  units \<open>0 .. 255\<close> (Latin-1).  In that range the white space removed by
  \<open>String.prototype.trim\<close> is TAB, LF, VT, FF, CR, SPACE and NBSP, and
  \<open>toLowerCase\<close> moves \<open>A-Z\<close> and the accented capitals \<open>0xC0 .. 0xDE\<close>
  (except the multiplication sign \<open>0xD7\<close>) up by 32.
\<close>

definition isWhiteSpace :: "char \<Rightarrow> bool" where
  "isWhiteSpace c =
     (let n = (of_char c :: nat)
      in n = 9 \<or> n = 10 \<or> n = 11 \<or> n = 12 \<or> n = 13 \<or> n = 32 \<or> n = 160)"

definition trim :: "string \<Rightarrow> string" where
  "trim s = rev (dropWhile isWhiteSpace (rev (dropWhile isWhiteSpace s)))"

definition toLowerChar :: "char \<Rightarrow> char" where
  "toLowerChar c =
     (let n = (of_char c :: nat)
      in if (65 \<le> n \<and> n \<le> 90) \<or> (192 \<le> n \<and> n \<le> 222 \<and> n \<noteq> 215)
         then char_of (n + 32) else c)"

definition toLowerCase :: "string \<Rightarrow> string" where
  "toLowerCase s = map toLowerChar s"

definition startsWith :: "string \<Rightarrow> string \<Rightarrow> bool" where
  "startsWith s p = (take (length p) s = p)"

section \<open>Token codec\<close>

type_synonym byte = "8 word"

text \<open>
  \<open>base64url\<close> comes from the \<open>oslo/encoding\<close> dependency; it is modelled after
  RFC 4648, section 5: three bytes give four characters of the URL-safe alphabet, a last
  group of one or two bytes gives two or three characters, and \<open>=\<close> pads the text to a
  multiple of four when padding is asked for.
\<close>

definition base64url_alphabet :: string where
  "base64url_alphabet =
     ''ABCDEFGHIJKLMNOPQRSTUVWXYZabcdefghijklmnopqrstuvwxyz0123456789-_''"

fun sextets :: "byte list \<Rightarrow> nat list" where
  "sextets (a # b # c # rest) =
     [unat a div 4,
      (unat a mod 4) * 16 + unat b div 16,
      (unat b mod 16) * 4 + unat c div 64,
      unat c mod 64] @ sextets rest"
| "sextets [a, b] =
     [unat a div 4, (unat a mod 4) * 16 + unat b div 16, (unat b mod 16) * 4]"
| "sextets [a] = [unat a div 4, (unat a mod 4) * 16]"
| "sextets [] = []"

definition base64url_encode :: "byte list \<Rightarrow> bool \<Rightarrow> string" where
  "base64url_encode bytes includePadding =
     (let result = map (\<lambda>i. base64url_alphabet ! i) (sextets bytes);
          padCount = (4 - length result mod 4) mod 4
      in if includePadding then result @ replicate padCount (CHR ''='') else result)"



section \<open>Numbers and text\<close>

text \<open>
  A number that is put into a template literal.  The numbers formatted here are natural
  numbers (lengths, counts, HTTP statuses, option values), for which JavaScript prints
  the plain decimal digits.
\<close>

definition digitChar :: "nat \<Rightarrow> char" where
  "digitChar d = char_of (48 + d)"

fun decimal :: "nat \<Rightarrow> string" where
  "decimal n = (if n < 10 then [digitChar n] else decimal (n div 10) @ [digitChar (n mod 10)])"

declare decimal.simps [simp del]

definition isDigit :: "char \<Rightarrow> bool" where
  "isDigit c = (48 \<le> (of_char c :: nat) \<and> (of_char c :: nat) \<le> 57)"

definition digitValue :: "char \<Rightarrow> nat" where
  "digitValue c = of_char c - 48"

definition digitsValue :: "string \<Rightarrow> nat" where
  "digitsValue ds = foldl (\<lambda>acc c. acc * 10 + digitValue c) 0 ds"

definition decimalDigits :: "string \<Rightarrow> nat option" where
  "decimalDigits s = (if s \<noteq> [] \<and> list_all isDigit s then Some (digitsValue s) else None)"

text \<open>
  \<open>parseInt(s, 10)\<close>: leading white space, an optional sign, then the longest run of
  digits; \<open>None\<close> is \<open>NaN\<close>.
\<close>

definition parseInt10 :: "string \<Rightarrow> int option" where
  "parseInt10 s =
     (let t = dropWhile isWhiteSpace s;
          neg = (t \<noteq> [] \<and> hd t = CHR ''-'');
          u = (if t \<noteq> [] \<and> (hd t = CHR ''-'' \<or> hd t = CHR ''+'') then tl t else t);
          ds = takeWhile isDigit u
      in if ds = [] then None
         else Some (if neg then - int (digitsValue ds) else int (digitsValue ds)))"

text \<open>
  \<open>Number(s)\<close> on a string, when the result is finite; \<open>None\<close> stands for \<open>NaN\<close> and
  the infinities, which \<open>Number.isFinite\<close> rejects alike.  The grammar is
  \<open>StringNumericLiteral\<close> of ECMAScript: surrounding white space, the empty text (zero),
  a signed decimal literal with optional fraction and exponent, or an unsigned binary,
  octal or hexadecimal integer.  The value is the exact rational; the rounding to a
  binary64 double is not modelled.
\<close>

definition radixDigit :: "char \<Rightarrow> nat option" where
  "radixDigit c =
     (let n = (of_char c :: nat)
      in if 48 \<le> n \<and> n \<le> 57 then Some (n - 48)
         else if 97 \<le> n \<and> n \<le> 102 then Some (n - 87)
         else if 65 \<le> n \<and> n \<le> 70 then Some (n - 55)
         else None)"

definition radixValue :: "nat \<Rightarrow> string \<Rightarrow> nat option" where
  "radixValue radix s =
     (if s \<noteq> [] \<and> list_all (\<lambda>c. case radixDigit c of None \<Rightarrow> False | Some v \<Rightarrow> v < radix) s
      then Some (foldl (\<lambda>acc c. acc * radix + the (radixDigit c)) 0 s)
      else None)"

definition signedInteger :: "string \<Rightarrow> int option" where
  "signedInteger s =
     (case s of
        [] \<Rightarrow> None
      | c # r \<Rightarrow>
          if c = CHR ''+'' then map_option int (decimalDigits r)
          else if c = CHR ''-'' then map_option (\<lambda>n. - int n) (decimalDigits r)
          else map_option int (decimalDigits s))"

definition exponentPart :: "string \<Rightarrow> int option" where
  "exponentPart s =
     (case s of
        [] \<Rightarrow> Some 0
      | c # r \<Rightarrow> if c = CHR ''e'' \<or> c = CHR ''E'' then signedInteger r else None)"

definition scale10 :: "rat \<Rightarrow> int \<Rightarrow> rat" where
  "scale10 x e = (if 0 \<le> e then x * 10 ^ nat e else x / 10 ^ nat (- e))"

definition unsignedDecimal :: "string \<Rightarrow> rat option" where
  "unsignedDecimal s =
     (let intPart = takeWhile isDigit s;
          r1 = dropWhile isDigit s
      in if r1 \<noteq> [] \<and> hd r1 = CHR ''.'' then
           (let fracPart = takeWhile isDigit (tl r1);
                r2 = dropWhile isDigit (tl r1)
            in if intPart = [] \<and> fracPart = [] then None
               else case exponentPart r2 of
                      None \<Rightarrow> None
                    | Some e \<Rightarrow>
                        Some (scale10 (of_nat (digitsValue (intPart @ fracPart)))
                                (e - int (length fracPart))))
         else if intPart = [] then None
         else case exponentPart r1 of
                None \<Rightarrow> None
              | Some e \<Rightarrow> Some (scale10 (of_nat (digitsValue intPart)) e))"

definition Number :: "string \<Rightarrow> rat option" where
  "Number s =
     (let t = trim s
      in if t = [] then Some 0
         else if length t > 2 \<and> hd t = CHR ''0'' \<and> (t ! 1 = CHR ''x'' \<or> t ! 1 = CHR ''X'')
           then map_option of_nat (radixValue 16 (drop 2 t))
         else if length t > 2 \<and> hd t = CHR ''0'' \<and> (t ! 1 = CHR ''o'' \<or> t ! 1 = CHR ''O'')
           then map_option of_nat (radixValue 8 (drop 2 t))
         else if length t > 2 \<and> hd t = CHR ''0'' \<and> (t ! 1 = CHR ''b'' \<or> t ! 1 = CHR ''B'')
           then map_option of_nat (radixValue 2 (drop 2 t))
         else if hd t = CHR ''+'' then unsignedDecimal (tl t)
         else if hd t = CHR ''-'' then map_option uminus (unsignedDecimal (tl t))
         else unsignedDecimal t)"

text \<open>\<open>s.split(sep)\<close> with a one-character separator.\<close>

fun split :: "char \<Rightarrow> string \<Rightarrow> string list" where
  "split sep [] = [[]]"
| "split sep (c # cs) =
     (if c = sep then [] # split sep cs
      else case split sep cs of p # ps \<Rightarrow> (c # p) # ps | [] \<Rightarrow> [[c]])"

text \<open>\<open>s.replace(c, '')\<close> with a one-character pattern: the first occurrence goes.\<close>

fun removeFirst :: "char \<Rightarrow> string \<Rightarrow> string" where
  "removeFirst x [] = []"
| "removeFirst x (c # cs) = (if c = x then cs else c # removeFirst x cs)"

text \<open>\<open>TextEncoder.encode\<close>: UTF-8 of the code units below 256.\<close>

definition encodeChar :: "char \<Rightarrow> byte list" where
  "encodeChar c =
     (let n = (of_char c :: nat)
      in if n < 128 then [of_nat n] else [of_nat (192 + n div 64), of_nat (128 + n mod 64)])"

definition textEncode :: "string \<Rightarrow> byte list" where
  "textEncode s = concat (map encodeChar s)"

section \<open>Authentication utilities\<close>

definition normalizeEmail :: "string \<Rightarrow> string" where
  "normalizeEmail email = trim (toLowerCase email)"

text \<open>
  Everything a workflow can throw: an \<open>AuthError\<close> with its message, code and HTTP
  status, or any other exception (of a collaborator), kept by its message.
\<close>

datatype exn =
    AuthError (message: string) (code: string) (statusCode: nat)
  | Thrown string

definition createAuthError :: "string \<Rightarrow> string \<Rightarrow> nat \<Rightarrow> exn" where
  "createAuthError msg c status = AuthError msg c status"

definition minLengthMessage :: "nat \<Rightarrow> string" where
  "minLengthMessage minLength =
     ''Password must be at least '' @ decimal minLength @ '' characters long''"

definition validatePassword :: "string \<Rightarrow> nat \<Rightarrow> string option" where
  "validatePassword password minLength =
     (if password = [] \<or> length password = 0 then Some (minLengthMessage minLength)
      else if length password < minLength then Some (minLengthMessage minLength)
      else None)"

section \<open>The relational store\<close>

text \<open>
  The four tables the workflows touch, as lists of rows.  Timestamps are milliseconds
  since the epoch.  A nullable column is an \<^typ>\<open>'a option\<close>.
\<close>

record users_row =
  users_id :: string
  users_email :: string
  users_email_verified :: bool
  users_password_hash :: "string option"
  users_github_id :: "string option"
  users_google_id :: "string option"
  users_name :: "string option"
  users_avatar_url :: "string option"
  users_created_at :: int

record sessions_row =
  sessions_id :: string
  sessions_user_id :: string
  sessions_expires_at :: int
  sessions_ip_address :: "string option"
  sessions_user_agent :: "string option"

record email_verification_tokens_row =
  evt_token :: string
  evt_user_id :: string
  evt_email :: string
  evt_expires_at :: int

record password_reset_tokens_row =
  prt_token :: string
  prt_user_id :: string
  prt_expires_at :: int

record database =
  users :: "users_row list"
  sessions :: "sessions_row list"
  email_verification_tokens :: "email_verification_tokens_row list"
  password_reset_tokens :: "password_reset_tokens_row list"

text \<open>
  What a workflow does besides reading: the statements that change a table, and the calls
  to the password hasher and to the delivery callback, in the order they are issued.
\<close>

datatype effect =
    HasherHash string
  | UpdateUsersPasswordHash string string
  | UpdateUsersEmailVerified string
  | DeletePasswordResetTokensWhereToken string
  | DeletePasswordResetTokensWhereUserId string
  | InsertPasswordResetToken password_reset_tokens_row
  | DeleteEmailVerificationTokensWhereToken string
  | DeleteSessionsWhereUserId string
  | InsertSession sessions_row
  | OnTokenGenerated string string

record world =
  db :: database
  effects :: "effect list"

definition emit :: "effect \<Rightarrow> world \<Rightarrow> world" where
  "emit e w = w\<lparr>effects := effects w @ [e]\<rparr>"

definition executeTakeFirst :: "('a \<Rightarrow> bool) \<Rightarrow> 'a list \<Rightarrow> 'a option" where
  "executeTakeFirst p rows = find p rows"

definition deleteWhere :: "('a \<Rightarrow> bool) \<Rightarrow> 'a list \<Rightarrow> 'a list" where
  "deleteWhere p rows = filter (\<lambda>r. \<not> p r) rows"

definition updateWhere :: "('a \<Rightarrow> bool) \<Rightarrow> ('a \<Rightarrow> 'a) \<Rightarrow> 'a list \<Rightarrow> 'a list" where
  "updateWhere p f rows = map (\<lambda>r. if p r then f r else r) rows"

section \<open>Sessions\<close>


text \<open>\<open>x || null\<close> on an optional string: absent and empty both give null.\<close>

definition orNull :: "string option \<Rightarrow> string option" where
  "orNull x = (case x of None \<Rightarrow> None | Some s \<Rightarrow> if s = [] then None else Some s)"


definition validateSession :: "int \<Rightarrow> database \<Rightarrow> string \<Rightarrow> users_row option" where
  "validateSession now d sessionId =
     (case concat (map (\<lambda>s. filter (\<lambda>u. users_id u = sessions_user_id s) (users d))
                     (filter (\<lambda>s. sessions_id s = sessionId \<and> sessions_expires_at s > now)
                        (sessions d))) of
        [] \<Rightarrow> None
      | u # _ \<Rightarrow> Some u)"

definition deleteAllUserSessions :: "world \<Rightarrow> string \<Rightarrow> world" where
  "deleteAllUserSessions w userId =
     (let d = db w
      in emit (DeleteSessionsWhereUserId userId)
           (w\<lparr>db := d\<lparr>sessions := deleteWhere (\<lambda>s. sessions_user_id s = userId) (sessions d)\<rparr>\<rparr>))"

section \<open>Login\<close>

text \<open>
  The \<open>PasswordHasher\<close> interface.  \<open>hash\<close> draws a salt; a value of this record is the
  hasher with the salt of the call fixed.  Both operations may throw.
\<close>

record password_hasher =
  hasher_id :: string
  hasher_hash :: "string \<Rightarrow> exn + string"
  hasher_verify :: "string \<Rightarrow> string \<Rightarrow> exn + bool"



section \<open>Token validity\<close>

text \<open>
  Modelled from the spec: \<open>isValidEmailVerificationToken\<close> and
  \<open>isValidPasswordResetToken\<close> of \<open>database/schema.ts\<close>, which is not among the
  sources.  The spec rejects an expired token and sweeps the rows with
  \<open>expires_at <= now\<close>, so a token is valid while its expiry is strictly in the future.
\<close>

definition isValidEmailVerificationToken :: "int \<Rightarrow> email_verification_tokens_row \<Rightarrow> bool" where
  "isValidEmailVerificationToken now tokenRecord = (now < evt_expires_at tokenRecord)"

definition isValidPasswordResetToken :: "int \<Rightarrow> password_reset_tokens_row \<Rightarrow> bool" where
  "isValidPasswordResetToken now tokenRecord = (now < prt_expires_at tokenRecord)"

section \<open>Email verification\<close>

record verify_email_result =
  ve_success :: bool
  ve_userId :: "string option"

definition deleteEmailVerificationToken :: "string \<Rightarrow> world \<Rightarrow> world" where
  "deleteEmailVerificationToken token w =
     (let d = db w
      in emit (DeleteEmailVerificationTokensWhereToken token)
           (w\<lparr>db := d\<lparr>email_verification_tokens :=
                  deleteWhere (\<lambda>t. evt_token t = token) (email_verification_tokens d)\<rparr>\<rparr>))"

definition setEmailVerified :: "string \<Rightarrow> world \<Rightarrow> world" where
  "setEmailVerified userId w =
     (let d = db w
      in emit (UpdateUsersEmailVerified userId)
           (w\<lparr>db := d\<lparr>users :=
                  updateWhere (\<lambda>u. users_id u = userId)
                    (\<lambda>u. u\<lparr>users_email_verified := True\<rparr>) (users d)\<rparr>\<rparr>))"

definition verifyEmail :: "int \<Rightarrow> world \<Rightarrow> string \<Rightarrow> (exn + verify_email_result) \<times> world" where
  "verifyEmail now w token =
     (if token = [] \<or> trim token = [] then
        (Inl (createAuthError ''Verification token is required'' ''INVALID_TOKEN'' 400), w)
      else
        case executeTakeFirst (\<lambda>t. evt_token t = token) (email_verification_tokens (db w)) of
          None \<Rightarrow> (Inl (createAuthError ''Invalid verification token'' ''INVALID_TOKEN'' 400), w)
        | Some tokenRecord \<Rightarrow>
            if \<not> isValidEmailVerificationToken now tokenRecord then
              (Inl (createAuthError ''Verification token has expired'' ''TOKEN_EXPIRED'' 400),
               deleteEmailVerificationToken token w)
            else
              (Inr \<lparr>ve_success = True, ve_userId = Some (evt_user_id tokenRecord)\<rparr>,
               deleteEmailVerificationToken token
                 (setEmailVerified (evt_user_id tokenRecord) w)))"

section \<open>Password reset\<close>




definition deletePasswordResetToken :: "string \<Rightarrow> world \<Rightarrow> world" where
  "deletePasswordResetToken token w =
     (let d = db w
      in emit (DeletePasswordResetTokensWhereToken token)
           (w\<lparr>db := d\<lparr>password_reset_tokens :=
                  deleteWhere (\<lambda>t. prt_token t = token) (password_reset_tokens d)\<rparr>\<rparr>))"


definition setPasswordHash :: "string \<Rightarrow> string \<Rightarrow> world \<Rightarrow> world" where
  "setPasswordHash userId passwordHash w =
     (let d = db w
      in emit (UpdateUsersPasswordHash userId passwordHash)
           (w\<lparr>db := d\<lparr>users :=
                  updateWhere (\<lambda>u. users_id u = userId)
                    (\<lambda>u. u\<lparr>users_password_hash := Some passwordHash\<rparr>) (users d)\<rparr>\<rparr>))"


record verify_reset_result =
  vr_valid :: bool
  vr_userId :: "string option"

definition verifyResetToken :: "int \<Rightarrow> world \<Rightarrow> string \<Rightarrow> verify_reset_result \<times> world" where
  "verifyResetToken now w token =
     (if token = [] \<or> trim token = [] then (\<lparr>vr_valid = False, vr_userId = None\<rparr>, w)
      else
        case executeTakeFirst (\<lambda>t. prt_token t = token) (password_reset_tokens (db w)) of
          None \<Rightarrow> (\<lparr>vr_valid = False, vr_userId = None\<rparr>, w)
        | Some tokenRecord \<Rightarrow>
            if \<not> isValidPasswordResetToken now tokenRecord then
              (\<lparr>vr_valid = False, vr_userId = None\<rparr>, deletePasswordResetToken token w)
            else
              (\<lparr>vr_valid = True, vr_userId = Some (prt_user_id tokenRecord)\<rparr>, w))"

definition resetPassword ::
  "password_hasher \<Rightarrow> int \<Rightarrow> world \<Rightarrow> string \<Rightarrow> string \<Rightarrow> (exn + bool) \<times> world" where
  "resetPassword hasher now w token newPassword =
     (if token = [] \<or> trim token = [] then
        (Inl (createAuthError ''Reset token is required'' ''INVALID_TOKEN'' 400), w)
      else
        case validatePassword newPassword 8 of
          Some passwordError \<Rightarrow> (Inl (createAuthError passwordError ''INVALID_PASSWORD'' 400), w)
        | None \<Rightarrow>
            (case executeTakeFirst (\<lambda>t. prt_token t = token) (password_reset_tokens (db w)) of
               None \<Rightarrow>
                 (Inl (createAuthError ''Invalid or expired reset token'' ''INVALID_TOKEN'' 400), w)
             | Some tokenRecord \<Rightarrow>
                 if \<not> isValidPasswordResetToken now tokenRecord then
                   (Inl (createAuthError ''Reset token has expired'' ''TOKEN_EXPIRED'' 400),
                    deletePasswordResetToken token w)
                 else
                   (case hasher_hash hasher newPassword of
                      Inl err \<Rightarrow> (Inl err, emit (HasherHash newPassword) w)
                    | Inr passwordHash \<Rightarrow>
                        (Inr True,
                         deleteAllUserSessions
                           (deletePasswordResetToken token
                              (setPasswordHash (prt_user_id tokenRecord) passwordHash
                                 (emit (HasherHash newPassword) w)))
                           (prt_user_id tokenRecord)))))"

section \<open>OAuth upsert\<close>

datatype provider = Github | Google

record oauth_user_profile =
  profile_id :: string
  profile_email :: string
  profile_name :: "string option"
  profile_avatar_url :: "string option"
  profile_email_verified :: "bool option"

definition providerId :: "provider \<Rightarrow> users_row \<Rightarrow> string option" where
  "providerId p u = (case p of Github \<Rightarrow> users_github_id u | Google \<Rightarrow> users_google_id u)"

definition setProviderId :: "provider \<Rightarrow> string \<Rightarrow> users_row \<Rightarrow> users_row" where
  "setProviderId p v u =
     (case p of Github \<Rightarrow> u\<lparr>users_github_id := Some v\<rparr>
              | Google \<Rightarrow> u\<lparr>users_google_id := Some v\<rparr>)"

text \<open>\<open>a ?? b\<close> and \<open>a || b\<close> on the optional values the upsert combines.\<close>

definition nullish :: "'a option \<Rightarrow> 'a \<Rightarrow> 'a" where
  "nullish a b = (case a of None \<Rightarrow> b | Some v \<Rightarrow> v)"

definition orBool :: "bool option \<Rightarrow> bool \<Rightarrow> bool" where
  "orBool a b = (case a of Some True \<Rightarrow> True | _ \<Rightarrow> b)"

definition orString :: "string option \<Rightarrow> string option \<Rightarrow> string option" where
  "orString a b = (case orNull a of Some s \<Rightarrow> Some s | None \<Rightarrow> b)"

definition returningFirst :: "('a \<Rightarrow> bool) \<Rightarrow> 'a list \<Rightarrow> exn + 'a" where
  "returningFirst p rows =
     (case executeTakeFirst p rows of None \<Rightarrow> Inl (Thrown ''no result'') | Some r \<Rightarrow> Inr r)"

text \<open>
  \<open>newId\<close> is the primary key the store generates for an inserted user, \<open>now\<close> its
  \<open>created_at\<close> default.
\<close>

definition upsertOAuthUser ::
  "string \<Rightarrow> int \<Rightarrow> database \<Rightarrow> provider \<Rightarrow> oauth_user_profile \<Rightarrow> (exn + users_row) \<times> database" where
  "upsertOAuthUser newId now d p profile =
     (case executeTakeFirst (\<lambda>u. providerId p u = Some (profile_id profile)) (users d) of
        Some existingUser \<Rightarrow>
          (let rows = updateWhere (\<lambda>u. users_id u = users_id existingUser)
                        (\<lambda>u. u\<lparr>users_email := profile_email profile,
                                users_name := profile_name profile,
                                users_avatar_url := profile_avatar_url profile,
                                users_email_verified :=
                                  nullish (profile_email_verified profile)
                                    (users_email_verified existingUser)\<rparr>) (users d)
           in (returningFirst (\<lambda>u. users_id u = users_id existingUser) rows,
               d\<lparr>users := rows\<rparr>))
      | None \<Rightarrow>
          (case executeTakeFirst (\<lambda>u. users_email u = profile_email profile) (users d) of
             Some userByEmail \<Rightarrow>
               (let rows = updateWhere (\<lambda>u. users_id u = users_id userByEmail)
                             (\<lambda>u. (setProviderId p (profile_id profile) u)
                                    \<lparr>users_name := orString (profile_name profile)
                                                     (users_name userByEmail),
                                     users_avatar_url := orString (profile_avatar_url profile)
                                                           (users_avatar_url userByEmail),
                                     users_email_verified :=
                                       orBool (profile_email_verified profile)
                                         (users_email_verified userByEmail)\<rparr>) (users d)
                in (returningFirst (\<lambda>u. users_id u = users_id userByEmail) rows,
                    d\<lparr>users := rows\<rparr>))
           | None \<Rightarrow>
               (let newUser = setProviderId p (profile_id profile)
                                \<lparr>users_id = newId,
                                 users_email = profile_email profile,
                                 users_email_verified =
                                   nullish (profile_email_verified profile) False,
                                 users_password_hash = None,
                                 users_github_id = None,
                                 users_google_id = None,
                                 users_name = profile_name profile,
                                 users_avatar_url = profile_avatar_url profile,
                                 users_created_at = now\<rparr>
                in (Inr newUser, d\<lparr>users := users d @ [newUser]\<rparr>))))"

section \<open>PBKDF2 password hasher\<close>

text \<open>
  The lenient decoder of the \<open>oslo/encoding\<close> dependency (\<open>strict: false\<close>): the text is
  read in chunks of four characters; a missing character counts as padding, \<open>=\<close> counts
  as padding and is accepted in the last chunk only, any other character outside the
  alphabet is an error.  A chunk gives three bytes, less one for each padding character
  beyond none, and at least one.
\<close>

definition base64url_value :: "char \<Rightarrow> nat option" where
  "base64url_value c = map_of (zip base64url_alphabet [0 ..< 64]) c"

definition decodeSlot :: "bool \<Rightarrow> char option \<Rightarrow> exn + nat option" where
  "decodeSlot lastChunk slot =
     (case slot of
        None \<Rightarrow> Inr None
      | Some c \<Rightarrow>
          if c = CHR ''='' then
            (if lastChunk then Inr None else Inl (Thrown ''Invalid character''))
          else case base64url_value c of
                 None \<Rightarrow> Inl (Thrown ''Invalid character'')
               | Some v \<Rightarrow> Inr (Some v))"

fun decodeSlots :: "bool \<Rightarrow> char option list \<Rightarrow> exn + nat option list" where
  "decodeSlots lastChunk [] = Inr []"
| "decodeSlots lastChunk (x # xs) =
     (case decodeSlot lastChunk x of
        Inl e \<Rightarrow> Inl e
      | Inr v \<Rightarrow> (case decodeSlots lastChunk xs of Inl e \<Rightarrow> Inl e | Inr vs \<Rightarrow> Inr (v # vs)))"

definition chunkBytes :: "nat option list \<Rightarrow> byte list" where
  "chunkBytes vs =
     (let padCount = length (filter (\<lambda>v. v = None) vs);
          buffer = foldl (\<lambda>acc v. acc * 64 + (case v of None \<Rightarrow> 0 | Some n \<Rightarrow> n)) 0 vs
      in [of_nat (buffer div 65536 mod 256)]
         @ (if padCount < 2 then [of_nat (buffer div 256 mod 256)] else [])
         @ (if padCount < 1 then [of_nat (buffer mod 256)] else []))"

function decodeChunks :: "string \<Rightarrow> exn + byte list" where
  "decodeChunks data =
     (if data = [] then Inr []
      else
        let chunk = take 4 data;
            rest = drop 4 data;
            slots = map Some chunk @ replicate (4 - length chunk) None
        in case decodeSlots (rest = []) slots of
             Inl e \<Rightarrow> Inl e
           | Inr vs \<Rightarrow>
               (case decodeChunks rest of
                  Inl e \<Rightarrow> Inl e
                | Inr bytes \<Rightarrow> Inr (chunkBytes vs @ bytes)))"
  by pat_completeness auto
termination
  by (relation "measure length") auto

declare decodeChunks.simps [simp del]

definition encodeBase64UrlNoPadding :: "byte list \<Rightarrow> string" where
  "encodeBase64UrlNoPadding bytes = base64url_encode bytes False"

definition decodeBase64UrlNoPadding :: "string \<Rightarrow> exn + byte list" where
  "decodeBase64UrlNoPadding v = decodeChunks v"

text \<open>
  \<open>timingSafeEqual\<close>: the loop ORs the XOR of each pair of bytes into \<open>diff\<close>, a 32-bit
  integer under JavaScript's bitwise operators.
\<close>

fun timingSafeLoop :: "byte list \<Rightarrow> byte list \<Rightarrow> 32 word \<Rightarrow> 32 word" where
  "timingSafeLoop (x # xs) (y # ys) diff = timingSafeLoop xs ys (diff OR ucast (x XOR y))"
| "timingSafeLoop xs ys diff = diff"

definition timingSafeEqual :: "byte list \<Rightarrow> byte list \<Rightarrow> bool" where
  "timingSafeEqual a b =
     (if length a \<noteq> length b then False else timingSafeLoop a b 0 = 0)"

datatype digest = SHA256 | SHA512

definition digestName :: "digest \<Rightarrow> string" where
  "digestName h = (case h of SHA256 \<Rightarrow> ''SHA-256'' | SHA512 \<Rightarrow> ''SHA-512'')"

text \<open>
  \<open>crypto.subtle.deriveBits\<close> with the PBKDF2 algorithm is the parameter \<open>deriveBits\<close>:
  digest, key material, salt, iteration count and number of bits give the derived
  bytes, or the operation throws.
\<close>

type_synonym derive_bits = "digest \<Rightarrow> byte list \<Rightarrow> byte list \<Rightarrow> nat \<Rightarrow> nat \<Rightarrow> exn + byte list"

definition pbkdf2DeriveKeyBytes ::
  "derive_bits \<Rightarrow> string \<Rightarrow> byte list \<Rightarrow> nat \<Rightarrow> digest \<Rightarrow> nat \<Rightarrow> exn + byte list" where
  "pbkdf2DeriveKeyBytes deriveBits password salt iterations h keyLength =
     deriveBits h (textEncode password) salt iterations (keyLength * 8)"

record pbkdf2_options =
  opt_iterations :: "nat option"
  opt_hash :: "digest option"
  opt_saltLength :: "nat option"
  opt_keyLength :: "nat option"

definition MIN_ITERATIONS :: nat where "MIN_ITERATIONS = 100000"
definition MAX_ITERATIONS :: nat where "MAX_ITERATIONS = 2000000"
definition MIN_KEY_LENGTH :: nat where "MIN_KEY_LENGTH = 16"
definition MAX_KEY_LENGTH :: nat where "MAX_KEY_LENGTH = 64"
definition MIN_SALT_LENGTH :: nat where "MIN_SALT_LENGTH = 8"
definition MAX_SALT_LENGTH :: nat where "MAX_SALT_LENGTH = 64"

definition pbkdf2_hash ::
  "derive_bits \<Rightarrow> (nat \<Rightarrow> byte list) \<Rightarrow> pbkdf2_options \<Rightarrow> string \<Rightarrow> exn + string" where
  "pbkdf2_hash deriveBits rng options password =
     (let iterations = nullish (opt_iterations options) 600000;
          h = nullish (opt_hash options) SHA256;
          saltLength = nullish (opt_saltLength options) 16;
          keyLength = nullish (opt_keyLength options) 32;
          salt = rng saltLength
      in case pbkdf2DeriveKeyBytes deriveBits password salt iterations h keyLength of
           Inl e \<Rightarrow> Inl e
         | Inr derivedKey \<Rightarrow>
             (let saltB64 = encodeBase64UrlNoPadding salt;
                  keyB64 = encodeBase64UrlNoPadding derivedKey;
                  hashName = removeFirst (CHR ''-'') (toLowerCase (digestName h))
              in Inr (''$pbkdf2$'' @ hashName @ ''$i='' @ decimal iterations
                        @ ''$l='' @ decimal keyLength @ ''$'' @ saltB64 @ ''$'' @ keyB64)))"

text \<open>
  \<open>verify\<close> reads every parameter back from the stored value.  The iteration count
  reaches \<open>deriveBits\<close> as an unsigned integer, which drops a fraction.
\<close>

definition pbkdf2_verify :: "derive_bits \<Rightarrow> string \<Rightarrow> string \<Rightarrow> exn + bool" where
  "pbkdf2_verify deriveBits storedHash password =
     (if \<not> startsWith storedHash ''$pbkdf2$'' then Inr False
      else
        let parts = split (CHR ''$'') storedHash
        in if length parts \<noteq> 7 then Inr False
           else
             let algorithm = parts ! 2;
                 iterationsPart = parts ! 3;
                 keyLengthPart = parts ! 4;
                 saltPart = parts ! 5;
                 keyPart = parts ! 6
             in if \<not> startsWith iterationsPart ''i='' \<or> \<not> startsWith keyLengthPart ''l='' then Inr False
                else
                  case Number (drop 2 iterationsPart) of
                    None \<Rightarrow> Inr False
                  | Some parsedIterations \<Rightarrow>
                     (if parsedIterations < of_nat MIN_ITERATIONS
                         \<or> parsedIterations > of_nat MAX_ITERATIONS then Inr False
                      else
                        case Number (drop 2 keyLengthPart) of
                          None \<Rightarrow> Inr False
                        | Some parsedKeyLength \<Rightarrow>
                           (if parsedKeyLength < of_nat MIN_KEY_LENGTH
                               \<or> parsedKeyLength > of_nat MAX_KEY_LENGTH then Inr False
                            else
                              case (if algorithm = ''sha256'' then Some SHA256
                                    else if algorithm = ''sha512'' then Some SHA512
                                    else None) of
                                None \<Rightarrow> Inr False
                              | Some parsedHash \<Rightarrow>
                                 (case decodeBase64UrlNoPadding saltPart of
                                    Inl e \<Rightarrow> Inr False
                                  | Inr salt \<Rightarrow>
                                     (case decodeBase64UrlNoPadding keyPart of
                                        Inl e \<Rightarrow> Inr False
                                      | Inr expectedKey \<Rightarrow>
                                         (if length salt < MIN_SALT_LENGTH
                                             \<or> length salt > MAX_SALT_LENGTH then Inr False
                                          else if of_nat (length expectedKey) \<noteq> parsedKeyLength
                                            then Inr False
                                          else
                                            case pbkdf2DeriveKeyBytes deriveBits password salt
                                                   (nat \<lfloor>parsedIterations\<rfloor>) parsedHash
                                                   (length expectedKey) of
                                              Inl e \<Rightarrow> Inl e
                                            | Inr derivedKey \<Rightarrow>
                                                Inr (timingSafeEqual derivedKey expectedKey)))))))"

definition createPbkdf2PasswordHasher ::
  "derive_bits \<Rightarrow> (nat \<Rightarrow> byte list) \<Rightarrow> pbkdf2_options \<Rightarrow> password_hasher" where
  "createPbkdf2PasswordHasher deriveBits rng options =
     \<lparr>hasher_id = ''pbkdf2'',
      hasher_hash = pbkdf2_hash deriveBits rng options,
      hasher_verify = pbkdf2_verify deriveBits\<rparr>"

section \<open>Resilient query executor\<close>

datatype mech_error =
    MechRateLimitError "int option"
  | MechTimeoutError
  | MechNetworkError "nat option"
  | MechSqlError string
  | OtherError string

text \<open>
  What one \<open>fetch\<close> of \<open>executeOnce\<close> can meet: the abort of the timeout, a rejected
  fetch, or a response.  Of a response the executor reads the status, the
  \<open>Retry-After\<close> header and the JSON body; a body that is not JSON makes \<open>res.json()\<close>
  throw.
\<close>

record 'r mech_sql_response =
  json_success :: "bool option"
  json_rows :: "'r list option"
  json_rowCount :: "nat option"
  json_error_message :: "string option"

record 'r http_response =
  res_status :: nat
  res_retryAfter :: "string option"
  res_json :: "'r mech_sql_response option"

datatype 'r fetch_outcome =
    Aborted
  | FetchRejected string
  | Responded "'r http_response"

record 'r query_result =
  rows :: "'r list"
  rowCount :: nat

definition res_ok :: "'r http_response \<Rightarrow> bool" where
  "res_ok res = (200 \<le> res_status res \<and> res_status res \<le> 299)"

definition executeOnce :: "'r fetch_outcome \<Rightarrow> mech_error + 'r query_result" where
  "executeOnce outcome =
     (case outcome of
        Aborted \<Rightarrow> Inl MechTimeoutError
      | FetchRejected msg \<Rightarrow> Inl (OtherError msg)
      | Responded res \<Rightarrow>
          if res_status res = 429 then
            Inl (MechRateLimitError
                   (map_option (\<lambda>n. n * 1000) (parseInt10 (nullish (res_retryAfter res) ''60''))))
          else if \<not> res_ok res then Inl (MechNetworkError (Some (res_status res)))
          else
            case res_json res of
              None \<Rightarrow> Inl (OtherError ''Unexpected token in JSON'')
            | Some json \<Rightarrow>
                if json_success json = Some False then
                  Inl (MechSqlError (nullish (json_error_message json) ''Unknown error''))
                else
                  let rs = nullish (json_rows json) []
                  in Inr \<lparr>rows = rs, rowCount = nullish (json_rowCount json) (length rs)\<rparr>)"

definition isRetryable :: "mech_error \<Rightarrow> bool" where
  "isRetryable err =
     (case err of
        MechRateLimitError retryAfter \<Rightarrow> True
      | MechTimeoutError \<Rightarrow> True
      | MechNetworkError status \<Rightarrow>
          (case status of None \<Rightarrow> False | Some c \<Rightarrow> c \<noteq> 0 \<and> c \<ge> 500)
      | _ \<Rightarrow> False)"

text \<open>
  \<open>executeWithRetry\<close>: \<open>net k\<close> is what the fetch of attempt \<open>k\<close> meets.  The result
  comes with the delays, in milliseconds, slept before each retry.
\<close>

function executeWithRetry ::
  "nat \<Rightarrow> (nat \<Rightarrow> 'r fetch_outcome) \<Rightarrow> nat \<Rightarrow> (mech_error + 'r query_result) \<times> nat list" where
  "executeWithRetry maxRetries net attempt =
     (case executeOnce (net attempt) of
        Inr result \<Rightarrow> (Inr result, [])
      | Inl err \<Rightarrow>
          if attempt < maxRetries \<and> isRetryable err then
            (let delay = 2 ^ attempt * 100;
                 (result, delays) = executeWithRetry maxRetries net (attempt + 1)
             in (result, delay # delays))
          else (Inl err, []))"
  by pat_completeness auto
termination
  by (relation "measure (\<lambda>(maxRetries, net, attempt). maxRetries - attempt)") auto

declare executeWithRetry.simps [simp del]

definition execute ::
  "nat \<Rightarrow> (nat \<Rightarrow> 'r fetch_outcome) \<Rightarrow> (mech_error + 'r query_result) \<times> nat list" where
  "execute maxRetries net = executeWithRetry maxRetries net 0"

text \<open>The constructor's default and range for \<open>maxRetries\<close>.\<close>

definition resolveMaxRetries :: "nat option \<Rightarrow> string + nat" where
  "resolveMaxRetries configured =
     (let maxRetries = nullish configured 2
      in if maxRetries < 0 \<or> maxRetries > 5
         then Inl (''maxRetries must be between 0 and 5, got '' @ decimal maxRetries)
         else Inr maxRetries)"

section \<open>GitHub OAuth callback\<close>

record oauth_provider_config =
  clientId :: string
  clientSecret :: string
  redirectUri :: string

record mech_auth_config =
  oauth_github :: "oauth_provider_config option"

definition createGitHubProvider :: "mech_auth_config \<Rightarrow> exn + oauth_provider_config" where
  "createGitHubProvider config =
     (case oauth_github config of
        None \<Rightarrow> Inl (Thrown ''GitHub OAuth is not configured'')
      | Some c \<Rightarrow>
          if clientId c = [] \<or> clientSecret c = [] \<or> redirectUri c = [] then
            Inl (Thrown ''GitHub OAuth configuration is incomplete (missing clientId, clientSecret, or redirectUri)'')
          else Inr c)"

record github_user =
  gh_id :: nat
  gh_login :: string
  gh_email :: "string option"
  gh_name :: "string option"
  gh_avatar_url :: "string option"

record github_email =
  ghe_email :: string
  ghe_primary :: bool
  ghe_verified :: bool
  ghe_visibility :: "string option"

record 'a api_response =
  api_ok :: bool
  api_status :: nat
  api_statusText :: string
  api_json :: 'a

text \<open>
  The collaborators of the callback: the code exchange of the OAuth client
  (\<open>validateAuthorizationCode\<close>, giving the access token) and the two GitHub endpoints.
  Each may throw.  A call is recorded with its argument.
\<close>

record github_client =
  validateAuthorizationCode :: "oauth_provider_config \<Rightarrow> string \<Rightarrow> exn + string"
  getUser :: "string \<Rightarrow> exn + github_user api_response"
  getUserEmails :: "string \<Rightarrow> exn + github_email list api_response"

datatype oauth_call =
    ExchangeCode string
  | FetchUser string
  | FetchUserEmails string

record oauth_callback_result =
  result_profile :: oauth_user_profile
  result_accessToken :: "string option"
  result_refreshToken :: "string option"

definition mkProfile :: "github_user \<Rightarrow> string \<Rightarrow> bool \<Rightarrow> oauth_user_profile" where
  "mkProfile user email emailVerified =
     \<lparr>profile_id = decimal (gh_id user), profile_email = email, profile_name = gh_name user,
      profile_avatar_url = gh_avatar_url user, profile_email_verified = Some emailVerified\<rparr>"

definition fetchGitHubUserProfile ::
  "github_client \<Rightarrow> string \<Rightarrow> (exn + oauth_user_profile) \<times> oauth_call list" where
  "fetchGitHubUserProfile client accessToken =
     (case getUser client accessToken of
        Inl e \<Rightarrow> (Inl e, [FetchUser accessToken])
      | Inr userResponse \<Rightarrow>
          if \<not> api_ok userResponse then
            (Inl (Thrown (''GitHub API error: '' @ decimal (api_status userResponse) @ '' ''
                            @ api_statusText userResponse)), [FetchUser accessToken])
          else
            let user = api_json userResponse
            in case orNull (gh_email user) of
                 Some email \<Rightarrow> (Inr (mkProfile user email False), [FetchUser accessToken])
               | None \<Rightarrow>
                   (case getUserEmails client accessToken of
                      Inl e \<Rightarrow> (Inl e, [FetchUser accessToken, FetchUserEmails accessToken])
                    | Inr emailsResponse \<Rightarrow>
                        if \<not> api_ok emailsResponse then
                          (Inl (Thrown (''GitHub API error (emails): ''
                                          @ decimal (api_status emailsResponse) @ '' ''
                                          @ api_statusText emailsResponse)),
                           [FetchUser accessToken, FetchUserEmails accessToken])
                        else
                          let emails = api_json emailsResponse;
                              chosen =
                                (case find (\<lambda>e. ghe_primary e \<and> ghe_verified e) emails of
                                   Some primaryEmail \<Rightarrow> Some primaryEmail
                                 | None \<Rightarrow> find (\<lambda>e. ghe_verified e) emails)
                          in (case chosen of
                                None \<Rightarrow> Inl (Thrown ''No verified email found in GitHub account'')
                              | Some e \<Rightarrow>
                                  if ghe_email e = [] then
                                    Inl (Thrown ''No email found in GitHub account'')
                                  else Inr (mkProfile user (ghe_email e) (ghe_verified e)),
                              [FetchUser accessToken, FetchUserEmails accessToken])))"

definition handleGitHubCallback ::
  "github_client \<Rightarrow> mech_auth_config \<Rightarrow> string \<Rightarrow> string \<Rightarrow> string
     \<Rightarrow> (exn + oauth_callback_result) \<times> oauth_call list" where
  "handleGitHubCallback client config authCode storedState returnedState =
     (if storedState \<noteq> returnedState then (Inl (Thrown ''Invalid OAuth state parameter''), [])
      else
        case createGitHubProvider config of
          Inl e \<Rightarrow> (Inl e, [])
        | Inr github \<Rightarrow>
            (case validateAuthorizationCode client github authCode of
               Inl e \<Rightarrow> (Inl e, [ExchangeCode authCode])
             | Inr accessToken \<Rightarrow>
                 (let (fetched, calls) = fetchGitHubUserProfile client accessToken
                  in (case fetched of
                        Inl e \<Rightarrow> Inl e
                      | Inr profile \<Rightarrow>
                          Inr \<lparr>result_profile = profile,
                               result_accessToken = Some accessToken,
                               result_refreshToken = None\<rparr>,
                      ExchangeCode authCode # calls))))"

section \<open>Example data\<close>

text \<open>A small store and a transparent hasher, for the concrete instances below.\<close>

definition exampleHasher :: password_hasher where
  "exampleHasher =
     \<lparr>hasher_id = ''example'',
      hasher_hash = (\<lambda>p. Inr (''h:'' @ p)),
      hasher_verify = (\<lambda>h p. Inr (h = ''h:'' @ p))\<rparr>"

definition alice :: users_row where
  "alice = \<lparr>users_id = ''u1'', users_email = ''alice@example.com'',
            users_email_verified = True, users_password_hash = Some ''h:secret-pw'',
            users_github_id = Some ''42'', users_google_id = None,
            users_name = Some ''Alice'', users_avatar_url = None, users_created_at = 0\<rparr>"

definition bob :: users_row where
  "bob = \<lparr>users_id = ''u2'', users_email = ''bob@example.com'',
          users_email_verified = True, users_password_hash = None,
          users_github_id = Some ''7'', users_google_id = None,
          users_name = None, users_avatar_url = None, users_created_at = 0\<rparr>"

definition aliceSession :: sessions_row where
  "aliceSession = \<lparr>sessions_id = ''s1'', sessions_user_id = ''u1'', sessions_expires_at = 5000,
                   sessions_ip_address = None, sessions_user_agent = None\<rparr>"

definition aliceVerification :: email_verification_tokens_row where
  "aliceVerification = \<lparr>evt_token = ''vtok'', evt_user_id = ''u1'',
                        evt_email = ''alice@example.com'', evt_expires_at = 1000\<rparr>"

definition aliceReset :: password_reset_tokens_row where
  "aliceReset = \<lparr>prt_token = ''rtok'', prt_user_id = ''u1'', prt_expires_at = 1000\<rparr>"

definition exampleWorld :: world where
  "exampleWorld =
     \<lparr>db = \<lparr>users = [alice, bob], sessions = [aliceSession],
            email_verification_tokens = [aliceVerification],
            password_reset_tokens = [aliceReset]\<rparr>,
      effects = []\<rparr>"

definition zeroRng :: "nat \<Rightarrow> byte list" where
  "zeroRng n = replicate n 0"


text \<open>
  Three scripts for the network: every attempt answers 503; every attempt answers 200
  with a rejected query; the first attempt is rate limited with \<open>Retry-After: 60\<close> and
  the next ones succeed.
\<close>

definition net503 :: "nat \<Rightarrow> unit fetch_outcome" where
  "net503 k = Responded \<lparr>res_status = 503, res_retryAfter = None, res_json = None\<rparr>"

definition netRejected :: "nat \<Rightarrow> unit fetch_outcome" where
  "netRejected k =
     Responded \<lparr>res_status = 200, res_retryAfter = None,
                res_json = Some \<lparr>json_success = Some False, json_rows = None,
                                  json_rowCount = None,
                                  json_error_message = Some ''Invalid SQL''\<rparr>\<rparr>"

definition net429 :: "nat \<Rightarrow> unit fetch_outcome" where
  "net429 k =
     (if k = 0 then
        Responded \<lparr>res_status = 429, res_retryAfter = Some ''60'', res_json = None\<rparr>
      else
        Responded \<lparr>res_status = 200, res_retryAfter = None,
                   res_json = Some \<lparr>json_success = Some True, json_rows = Some [],
                                     json_rowCount = Some 0, json_error_message = None\<rparr>\<rparr>)"

text \<open>A configured GitHub provider and a client whose calls all succeed.\<close>

definition exampleConfig :: mech_auth_config where
  "exampleConfig =
     \<lparr>oauth_github = Some \<lparr>clientId = ''id'', clientSecret = ''secret'',
                            redirectUri = ''https://app.example.com/cb''\<rparr>\<rparr>"

definition exampleClient :: github_client where
  "exampleClient =
     \<lparr>validateAuthorizationCode = (\<lambda>provider authCode. Inr ''access-token''),
      getUser = (\<lambda>accessToken.
        Inr \<lparr>api_ok = True, api_status = 200, api_statusText = ''OK'',
             api_json = \<lparr>gh_id = 42, gh_login = ''alice'',
                          gh_email = Some ''alice@example.com'', gh_name = Some ''Alice'',
                          gh_avatar_url = None\<rparr>\<rparr>),
      getUserEmails = (\<lambda>accessToken.
        Inr \<lparr>api_ok = True, api_status = 200, api_statusText = ''OK'', api_json = []\<rparr>)\<rparr>"

text \<open>
  A transparent stand-in for \<open>deriveBits\<close>: the key material, cut or zero-padded to
  the requested length.  Two option sets: the defaults, and an iteration count below
  the minimum that \<open>verify\<close> accepts.
\<close>

definition exampleDeriveBits :: derive_bits where
  "exampleDeriveBits h keyMaterial salt iterations bits =
     Inr (take (bits div 8) (keyMaterial @ replicate (bits div 8) 0))"

definition defaultOptions :: pbkdf2_options where
  "defaultOptions =
     \<lparr>opt_iterations = None, opt_hash = None, opt_saltLength = None, opt_keyLength = None\<rparr>"

definition fastOptions :: pbkdf2_options where
  "fastOptions =
     \<lparr>opt_iterations = Some 1000, opt_hash = None, opt_saltLength = None,
      opt_keyLength = None\<rparr>"

section \<open>Properties\<close>

lemmas example_defs =
  exampleHasher_def alice_def bob_def aliceSession_def aliceVerification_def aliceReset_def
  exampleWorld_def zeroRng_def

lemmas string_defs =
  normalizeEmail_def trim_def toLowerCase_def toLowerChar_def isWhiteSpace_def
  char_of_def bit_iff_odd

lemma orNull_None_iff: "orNull x = None \<longleftrightarrow> x = None \<or> x = Some []"
  by (auto simp: orNull_def split: option.splits)

lemma find_deleteWhere_self: "find p (deleteWhere p rs) = None"
  by (induction rs) (auto simp: deleteWhere_def)

lemma set_deleteWhere: "set (deleteWhere p rs) = {r \<in> set rs. \<not> p r}"
  by (auto simp: deleteWhere_def)

lemma trim_nonempty: "trim s \<noteq> [] \<Longrightarrow> s \<noteq> []"
  by (auto simp: trim_def)

lemma validateSession_no_row:
  assumes "\<forall>s \<in> set (sessions d). sessions_id s \<noteq> sid"
  shows "validateSession now d sid = None"
proof -
  from assms
  have "filter (\<lambda>s. sessions_id s = sid \<and> sessions_expires_at s > now) (sessions d) = []"
    by (auto simp: filter_empty_conv)
  then show ?thesis by (simp add: validateSession_def)
qed

lemma distinct_key_unique:
  "distinct (map f xs) \<Longrightarrow> x \<in> set xs \<Longrightarrow> y \<in> set xs \<Longrightarrow> f x = f y \<Longrightarrow> x = y"
  by (meson distinct_map inj_on_def)

subsection \<open>Login failures\<close>




subsection \<open>Password reset\<close>

text \<open>
  C2 (as amended).  For a stored, unexpired reset token, a new password that passes the
  password policy and a hasher that returns a hash, \<open>resetPassword\<close> succeeds and issues,
  in this order: the hash of the new password, the update of the owner's
  \<open>password_hash\<close>, the deletion of the token, the deletion of the owner's sessions.
  Afterwards the owner's rows carry the new hash, the token is gone, the owner has no
  session, and, session ids being unique (the primary key), \<open>validateSession\<close> finds no
  user for any session id the owner had.
\<close>

theorem resetPassword_invalidates_sessions:
  assumes tok: "trim token \<noteq> []"
    and pol: "validatePassword newPassword 8 = None"
    and found: "executeTakeFirst (\<lambda>t. prt_token t = token) (password_reset_tokens (db w))
                  = Some tokenRecord"
    and valid: "isValidPasswordResetToken now tokenRecord"
    and hashed: "hasher_hash hasher newPassword = Inr passwordHash"
    and pk: "distinct (map sessions_id (sessions (db w)))"
  shows "fst (resetPassword hasher now w token newPassword) = Inr True
       \<and> effects (snd (resetPassword hasher now w token newPassword))
           = effects w @ [HasherHash newPassword,
                          UpdateUsersPasswordHash (prt_user_id tokenRecord) passwordHash,
                          DeletePasswordResetTokensWhereToken token,
                          DeleteSessionsWhereUserId (prt_user_id tokenRecord)]
       \<and> (\<forall>u \<in> set (users (db (snd (resetPassword hasher now w token newPassword)))).
             users_id u = prt_user_id tokenRecord \<longrightarrow> users_password_hash u = Some passwordHash)
       \<and> (\<forall>t \<in> set (password_reset_tokens
                        (db (snd (resetPassword hasher now w token newPassword)))).
             prt_token t \<noteq> token)
       \<and> (\<forall>s \<in> set (sessions (db (snd (resetPassword hasher now w token newPassword)))).
             sessions_user_id s \<noteq> prt_user_id tokenRecord)
       \<and> (\<forall>s \<in> set (sessions (db w)). sessions_user_id s = prt_user_id tokenRecord
             \<longrightarrow> validateSession now' (db (snd (resetPassword hasher now w token newPassword)))
                   (sessions_id s) = None)"
proof -
  let ?uid = "prt_user_id tokenRecord"
  let ?w' = "deleteAllUserSessions
               (deletePasswordResetToken token
                  (setPasswordHash ?uid passwordHash (emit (HasherHash newPassword) w))) ?uid"
  have ne: "token \<noteq> []" using tok by (rule trim_nonempty)
  have run: "resetPassword hasher now w token newPassword = (Inr True, ?w')"
    using tok ne pol found valid hashed by (simp add: resetPassword_def)
  have eff: "effects ?w' = effects w @ [HasherHash newPassword,
                UpdateUsersPasswordHash ?uid passwordHash,
                DeletePasswordResetTokensWhereToken token, DeleteSessionsWhereUserId ?uid]"
    by (simp add: deleteAllUserSessions_def deletePasswordResetToken_def setPasswordHash_def
          emit_def Let_def)
  have usr: "users (db ?w') = updateWhere (\<lambda>u. users_id u = ?uid)
                 (\<lambda>u. u\<lparr>users_password_hash := Some passwordHash\<rparr>) (users (db w))"
    by (simp add: deleteAllUserSessions_def deletePasswordResetToken_def setPasswordHash_def
          emit_def Let_def)
  have tks: "password_reset_tokens (db ?w')
               = deleteWhere (\<lambda>t. prt_token t = token) (password_reset_tokens (db w))"
    by (simp add: deleteAllUserSessions_def deletePasswordResetToken_def setPasswordHash_def
          emit_def Let_def)
  have ses: "sessions (db ?w') = deleteWhere (\<lambda>s. sessions_user_id s = ?uid) (sessions (db w))"
    by (simp add: deleteAllUserSessions_def deletePasswordResetToken_def setPasswordHash_def
          emit_def Let_def)
  have old: "validateSession now' (db ?w') (sessions_id s) = None"
    if "s \<in> set (sessions (db w))" and "sessions_user_id s = ?uid" for s
  proof (rule validateSession_no_row, rule ballI)
    fix s' assume "s' \<in> set (sessions (db ?w'))"
    then have in': "s' \<in> set (sessions (db w))" and other: "sessions_user_id s' \<noteq> ?uid"
      by (auto simp: ses set_deleteWhere)
    show "sessions_id s' \<noteq> sessions_id s"
    proof
      assume "sessions_id s' = sessions_id s"
      with pk in' that(1) have "s' = s" by (rule distinct_key_unique)
      with other that(2) show False by simp
    qed
  qed
  show ?thesis
    unfolding run using old by (auto simp: eff usr tks ses updateWhere_def set_deleteWhere)
qed

theorem resetPassword_invalidates_sessions_witness:
  "validateSession 0 (db exampleWorld) ''s1'' = Some alice
   \<and> fst (resetPassword exampleHasher 0 exampleWorld ''rtok'' ''new-secret-pw'') = Inr True
   \<and> effects (snd (resetPassword exampleHasher 0 exampleWorld ''rtok'' ''new-secret-pw''))
       = [HasherHash ''new-secret-pw'', UpdateUsersPasswordHash ''u1'' ''h:new-secret-pw'',
          DeletePasswordResetTokensWhereToken ''rtok'', DeleteSessionsWhereUserId ''u1'']
   \<and> validateSession 0
        (db (snd (resetPassword exampleHasher 0 exampleWorld ''rtok'' ''new-secret-pw''))) ''s1''
       = None"
proof -
  have tok: "trim ''rtok'' \<noteq> []" by (simp add: string_defs)
  have pol: "validatePassword ''new-secret-pw'' 8 = None" by (simp add: validatePassword_def)
  have found: "executeTakeFirst (\<lambda>t. prt_token t = ''rtok'')
                 (password_reset_tokens (db exampleWorld)) = Some aliceReset"
    by (simp add: example_defs executeTakeFirst_def)
  have valid: "isValidPasswordResetToken 0 aliceReset"
    by (simp add: example_defs isValidPasswordResetToken_def)
  have hashed: "hasher_hash exampleHasher ''new-secret-pw'' = Inr ''h:new-secret-pw''"
    by (simp add: example_defs)
  have pk: "distinct (map sessions_id (sessions (db exampleWorld)))"
    by (simp add: example_defs)
  have before: "validateSession 0 (db exampleWorld) ''s1'' = Some alice"
    by (simp add: example_defs validateSession_def)
  have mine: "aliceSession \<in> set (sessions (db exampleWorld))
              \<and> sessions_user_id aliceSession = prt_user_id aliceReset
              \<and> sessions_id aliceSession = ''s1'' \<and> prt_user_id aliceReset = ''u1''
              \<and> effects exampleWorld = []"
    by (simp add: example_defs)
  show ?thesis
    using before mine
      resetPassword_invalidates_sessions [OF tok pol found valid hashed pk, of 0]
    by auto
qed

text \<open>
  C2, as stated, fails when the new password does not pass the policy: the token
  \<open>rtok\<close> is stored and unexpired, yet \<open>resetPassword\<close> throws \<open>INVALID_PASSWORD\<close>,
  changes nothing, and the owner's session \<open>s1\<close> still validates.
\<close>

theorem resetPassword_short_password_counterexample:
  "executeTakeFirst (\<lambda>t. prt_token t = ''rtok'') (password_reset_tokens (db exampleWorld))
     = Some aliceReset
   \<and> isValidPasswordResetToken 0 aliceReset
   \<and> sessions_user_id aliceSession = prt_user_id aliceReset
   \<and> fst (resetPassword exampleHasher 0 exampleWorld ''rtok'' ''short'')
       = Inl (AuthError ''Password must be at least 8 characters long'' ''INVALID_PASSWORD'' 400)
   \<and> validateSession 0 (db (snd (resetPassword exampleHasher 0 exampleWorld ''rtok'' ''short'')))
        (sessions_id aliceSession) = Some alice"
  by (simp add: example_defs string_defs resetPassword_def validatePassword_def
        createAuthError_def validateSession_def isValidPasswordResetToken_def
        executeTakeFirst_def minLengthMessage_def decimal.simps [of 8] digitChar_def)

subsection \<open>Email verification\<close>

text \<open>
  C3.  A \<open>verifyEmail\<close> call on a stored, unexpired verification token succeeds with the
  owner's id, leaves every row of the owner with \<open>email_verified\<close> true, and deletes the
  token, so that a second call with the same token, at any time, fails with
  \<open>INVALID_TOKEN\<close>.
\<close>

theorem verifyEmail_single_use:
  assumes tok: "trim token \<noteq> []"
    and found: "executeTakeFirst (\<lambda>t. evt_token t = token) (email_verification_tokens (db w))
                  = Some tokenRecord"
    and valid: "isValidEmailVerificationToken now tokenRecord"
  shows "fst (verifyEmail now w token)
           = Inr \<lparr>ve_success = True, ve_userId = Some (evt_user_id tokenRecord)\<rparr>
       \<and> (\<forall>u \<in> set (users (db (snd (verifyEmail now w token)))).
             users_id u = evt_user_id tokenRecord \<longrightarrow> users_email_verified u)
       \<and> map users_id (users (db (snd (verifyEmail now w token)))) = map users_id (users (db w))
       \<and> (\<forall>t \<in> set (email_verification_tokens (db (snd (verifyEmail now w token)))).
             evt_token t \<noteq> token)
       \<and> fst (verifyEmail now' (snd (verifyEmail now w token)) token)
           = Inl (AuthError ''Invalid verification token'' ''INVALID_TOKEN'' 400)"
proof -
  let ?w' = "deleteEmailVerificationToken token (setEmailVerified (evt_user_id tokenRecord) w)"
  have ne: "token \<noteq> []" using tok by (rule trim_nonempty)
  have run: "verifyEmail now w token
      = (Inr \<lparr>ve_success = True, ve_userId = Some (evt_user_id tokenRecord)\<rparr>, ?w')"
    using tok ne found valid by (simp add: verifyEmail_def)
  have usr: "users (db ?w') = updateWhere (\<lambda>u. users_id u = evt_user_id tokenRecord)
                    (\<lambda>u. u\<lparr>users_email_verified := True\<rparr>) (users (db w))"
    by (simp add: deleteEmailVerificationToken_def setEmailVerified_def emit_def Let_def)
  have tks: "email_verification_tokens (db ?w')
       = deleteWhere (\<lambda>t. evt_token t = token) (email_verification_tokens (db w))"
    by (simp add: deleteEmailVerificationToken_def setEmailVerified_def emit_def Let_def)
  have gone: "executeTakeFirst (\<lambda>t. evt_token t = token) (email_verification_tokens (db ?w'))
                = None"
    by (simp add: tks executeTakeFirst_def find_deleteWhere_self)
  have second: "fst (verifyEmail now' ?w' token)
      = Inl (AuthError ''Invalid verification token'' ''INVALID_TOKEN'' 400)"
    using tok ne gone by (simp add: verifyEmail_def createAuthError_def)
  have ids: "map users_id (users (db ?w')) = map users_id (users (db w))"
    by (simp add: usr updateWhere_def)
  show ?thesis
    unfolding run using second ids by (auto simp: usr tks updateWhere_def set_deleteWhere)
qed

theorem verifyEmail_single_use_witness:
  "fst (verifyEmail 0 exampleWorld ''vtok'') = Inr \<lparr>ve_success = True, ve_userId = Some ''u1''\<rparr>
   \<and> fst (verifyEmail 1 (snd (verifyEmail 0 exampleWorld ''vtok'')) ''vtok'')
       = Inl (AuthError ''Invalid verification token'' ''INVALID_TOKEN'' 400)"
proof -
  have tok: "trim ''vtok'' \<noteq> []" by (simp add: string_defs)
  have found: "executeTakeFirst (\<lambda>t. evt_token t = ''vtok'')
                 (email_verification_tokens (db exampleWorld)) = Some aliceVerification"
    by (simp add: example_defs executeTakeFirst_def)
  have valid: "isValidEmailVerificationToken 0 aliceVerification"
    by (simp add: example_defs isValidEmailVerificationToken_def)
  have owner: "evt_user_id aliceVerification = ''u1''" by (simp add: example_defs)
  show ?thesis
    using owner verifyEmail_single_use [OF tok found valid, of 1] by simp
qed

subsection \<open>Reset request\<close>




subsection \<open>Reset-token verification\<close>

text \<open>
  C10 (as amended).  \<open>verifyResetToken\<close> never changes users, sessions or verification
  tokens.  It answers valid, with the owner's id, exactly for a non-blank, stored,
  unexpired token, and then changes nothing at all.  It changes the store in one case
  only: a stored token that has expired is deleted.
\<close>

theorem verifyResetToken_frame:
  "users (db (snd (verifyResetToken now w token))) = users (db w)
   \<and> sessions (db (snd (verifyResetToken now w token))) = sessions (db w)
   \<and> email_verification_tokens (db (snd (verifyResetToken now w token)))
       = email_verification_tokens (db w)
   \<and> snd (verifyResetToken now w token) =
       (case executeTakeFirst (\<lambda>t. prt_token t = token) (password_reset_tokens (db w)) of
          Some tokenRecord \<Rightarrow>
            if trim token \<noteq> [] \<and> prt_expires_at tokenRecord \<le> now
            then deletePasswordResetToken token w else w
        | None \<Rightarrow> w)
   \<and> (\<forall>tokenRecord. trim token \<noteq> []
         \<and> executeTakeFirst (\<lambda>t. prt_token t = token) (password_reset_tokens (db w))
             = Some tokenRecord
         \<and> now < prt_expires_at tokenRecord
       \<longrightarrow> verifyResetToken now w token
            = (\<lparr>vr_valid = True, vr_userId = Some (prt_user_id tokenRecord)\<rparr>, w))
   \<and> (vr_valid (fst (verifyResetToken now w token))
       \<longrightarrow> snd (verifyResetToken now w token) = w
           \<and> (\<exists>tokenRecord \<in> set (password_reset_tokens (db w)).
                 prt_token tokenRecord = token \<and> now < prt_expires_at tokenRecord
                 \<and> vr_userId (fst (verifyResetToken now w token))
                     = Some (prt_user_id tokenRecord)))"
proof -
  have in_table: "r \<in> set (password_reset_tokens (db w)) \<and> prt_token r = token"
    if "executeTakeFirst (\<lambda>t. prt_token t = token) (password_reset_tokens (db w)) = Some r"
    for r
    using that by (auto simp: executeTakeFirst_def find_Some_iff)
  show ?thesis
    by (auto simp: verifyResetToken_def isValidPasswordResetToken_def
          deletePasswordResetToken_def emit_def Let_def
          dest: trim_nonempty in_table split: option.splits)
qed

theorem verifyResetToken_frame_witness:
  "verifyResetToken 0 exampleWorld ''rtok''
     = (\<lparr>vr_valid = True, vr_userId = Some ''u1''\<rparr>, exampleWorld)"
proof -
  have pre: "trim ''rtok'' \<noteq> []
             \<and> executeTakeFirst (\<lambda>t. prt_token t = ''rtok'')
                 (password_reset_tokens (db exampleWorld)) = Some aliceReset
             \<and> 0 < prt_expires_at aliceReset \<and> prt_user_id aliceReset = ''u1''"
    by (simp add: example_defs string_defs executeTakeFirst_def)
  show ?thesis
    using pre verifyResetToken_frame [of 0 exampleWorld "''rtok''"] by metis
qed

text \<open>
  C10, as stated, fails on an expired token: at time 2000 the token \<open>rtok\<close>
  (expiry 1000) is deleted by the call.
\<close>

theorem verifyResetToken_expired_counterexample:
  "password_reset_tokens (db exampleWorld) = [aliceReset]
   \<and> password_reset_tokens (db (snd (verifyResetToken 2000 exampleWorld ''rtok''))) = []
   \<and> db (snd (verifyResetToken 2000 exampleWorld ''rtok'')) \<noteq> db exampleWorld"
proof -
  have "password_reset_tokens (db exampleWorld) = [aliceReset]"
    by (simp add: example_defs)
  moreover
  have "password_reset_tokens (db (snd (verifyResetToken 2000 exampleWorld ''rtok''))) = []"
    by (simp add: example_defs string_defs verifyResetToken_def executeTakeFirst_def
          isValidPasswordResetToken_def deletePasswordResetToken_def deleteWhere_def emit_def)
  ultimately show ?thesis by auto
qed

subsection \<open>OAuth upsert\<close>

text \<open>
  C5 (the code at the failing input).  \<open>alice\<close> is verified and has the GitHub id 42.  A
  GitHub profile with that id and \<open>email_verified = false\<close>, as \<open>fetchGitHubUserProfile\<close>
  builds it for a public email, makes \<open>upsertOAuthUser\<close> store \<open>email_verified = false\<close>
  for her: the update takes \<open>profile.email_verified ?? existing\<close>, not the disjunction
  the account-linking branch takes.
\<close>

theorem upsertOAuthUser_unverifies:
  "users_email_verified alice
   \<and> providerId Github alice = Some ''42''
   \<and> map users_email_verified
       (users (snd (upsertOAuthUser ''new'' 0 (db exampleWorld) Github
          \<lparr>profile_id = ''42'', profile_email = ''alice@example.com'',
            profile_name = Some ''Alice'', profile_avatar_url = None,
            profile_email_verified = Some False\<rparr>))) = [False, True]
   \<and> map_sum id users_email_verified
       (fst (upsertOAuthUser ''new'' 0 (db exampleWorld) Github
          \<lparr>profile_id = ''42'', profile_email = ''alice@example.com'',
            profile_name = Some ''Alice'', profile_avatar_url = None,
            profile_email_verified = Some False\<rparr>)) = Inr False"
  by (simp add: example_defs upsertOAuthUser_def executeTakeFirst_def providerId_def
        updateWhere_def nullish_def returningFirst_def)

subsection \<open>OAuth callback\<close>

text \<open>
  C6.  When the stored and the returned state differ, \<open>handleGitHubCallback\<close> throws
  \<open>Invalid OAuth state parameter\<close> and has called no collaborator: neither the code
  exchange nor a profile fetch.
\<close>

theorem handleGitHubCallback_state_mismatch:
  assumes "storedState \<noteq> returnedState"
  shows "handleGitHubCallback client config authCode storedState returnedState
           = (Inl (Thrown ''Invalid OAuth state parameter''), [])"
  using assms by (simp add: handleGitHubCallback_def)


theorem handleGitHubCallback_state_mismatch_witness:
  "handleGitHubCallback exampleClient exampleConfig ''code'' ''state-a'' ''state-b''
     = (Inl (Thrown ''Invalid OAuth state parameter''), [])
   \<and> snd (handleGitHubCallback exampleClient exampleConfig ''code'' ''state-a'' ''state-a'')
     = [ExchangeCode ''code'', FetchUser ''access-token'']"
proof -
  have differ: "''state-a'' \<noteq> ''state-b''" by simp
  have same: "snd (handleGitHubCallback exampleClient exampleConfig ''code'' ''state-a'' ''state-a'')
     = [ExchangeCode ''code'', FetchUser ''access-token'']"
    by (simp add: handleGitHubCallback_def createGitHubProvider_def exampleConfig_def
          exampleClient_def fetchGitHubUserProfile_def orNull_def)
  show ?thesis
    using same handleGitHubCallback_state_mismatch [OF differ, of exampleClient exampleConfig "''code''"]
    by simp
qed

subsection \<open>Retry and backoff\<close>

lemma ewr_unfold_ok:
  "executeOnce (net a) = Inr r \<Longrightarrow> executeWithRetry m net a = (Inr r, [])"
  by (subst executeWithRetry.simps) simp

lemma ewr_unfold_stop:
  "executeOnce (net a) = Inl err \<Longrightarrow> \<not> (a < m \<and> isRetryable err)
     \<Longrightarrow> executeWithRetry m net a = (Inl err, [])"
  by (subst executeWithRetry.simps) auto

lemma ewr_unfold_retry:
  "executeOnce (net a) = Inl err \<Longrightarrow> a < m \<Longrightarrow> isRetryable err
     \<Longrightarrow> executeWithRetry m net a
         = (fst (executeWithRetry m net (a + 1)), 2 ^ a * 100 # snd (executeWithRetry m net (a + 1)))"
  by (subst executeWithRetry.simps) (simp add: case_prod_unfold Let_def)

lemma ewr_cases:
  obtains (ok) r where "executeOnce (net a) = Inr r" "executeWithRetry m net a = (Inr r, [])"
  | (stop) err where "executeOnce (net a) = Inl err" "\<not> (a < m \<and> isRetryable err)"
      "executeWithRetry m net a = (Inl err, [])"
  | (retry) err where "executeOnce (net a) = Inl err" "a < m" "isRetryable err"
      "executeWithRetry m net a
         = (fst (executeWithRetry m net (a + 1)), 2 ^ a * 100 # snd (executeWithRetry m net (a + 1)))"
proof (cases "executeOnce (net a)")
  case (Inr r) then show ?thesis using ok ewr_unfold_ok by blast
next
  case (Inl err)
  show ?thesis
  proof (cases "a < m \<and> isRetryable err")
    case True then show ?thesis using Inl retry ewr_unfold_retry by blast
  next
    case False then show ?thesis using Inl stop ewr_unfold_stop by blast
  qed
qed

lemma ewr_delays:
  "snd (executeWithRetry m net a)
     = map (\<lambda>i. 2 ^ i * 100) [a ..< a + length (snd (executeWithRetry m net a))]"
proof (induction m net a rule: executeWithRetry.induct)
  case (1 m net a)
  show ?case
  proof (cases rule: ewr_cases [of net a m])
    case (ok r) then show ?thesis by simp
  next
    case (stop err) then show ?thesis by simp
  next
    case (retry err)
    from "1.IH" [OF retry(1)] retry(2,3)
    have IH: "snd (executeWithRetry m net (a + 1))
        = map (\<lambda>i. 2 ^ i * 100) [a + 1 ..< a + 1 + length (snd (executeWithRetry m net (a + 1)))]"
      by simp
    define n where "n = length (snd (executeWithRetry m net (a + 1)))"
    have tl: "snd (executeWithRetry m net (a + 1)) = map (\<lambda>i. 2 ^ i * 100) [Suc a ..< Suc a + n]"
      using IH by (simp add: n_def)
    have "snd (executeWithRetry m net a) = 2 ^ a * 100 # snd (executeWithRetry m net (a + 1))"
      by (simp add: retry(4))
    also have "\<dots> = map (\<lambda>i. 2 ^ i * 100) (a # [Suc a ..< Suc a + n])"
      using tl by simp
    also have "a # [Suc a ..< Suc a + n] = [a ..< a + Suc n]"
      by (simp add: upt_conv_Cons)
    finally show ?thesis
      by (simp add: retry(4) n_def)
  qed
qed

lemma ewr_bound: "a + length (snd (executeWithRetry m net a)) \<le> max m a"
proof (induction m net a rule: executeWithRetry.induct)
  case (1 m net a)
  show ?case
  proof (cases rule: ewr_cases [of net a m])
    case (retry err)
    from "1.IH" [OF retry(1)] retry(2,3)
    have "a + 1 + length (snd (executeWithRetry m net (a + 1))) \<le> max m (a + 1)" by simp
    with retry show ?thesis by simp
  qed simp_all
qed

lemma ewr_result:
  "fst (executeWithRetry m net a)
     = executeOnce (net (a + length (snd (executeWithRetry m net a))))"
proof (induction m net a rule: executeWithRetry.induct)
  case (1 m net a)
  show ?case
  proof (cases rule: ewr_cases [of net a m])
    case (retry err)
    from "1.IH" [OF retry(1)] retry(2,3) retry(4) show ?thesis by simp
  qed simp_all
qed

lemma ewr_cause:
  "i < length (snd (executeWithRetry m net a))
     \<Longrightarrow> \<exists>err. executeOnce (net (a + i)) = Inl err \<and> isRetryable err \<and> a + i < m"
proof (induction m net a arbitrary: i rule: executeWithRetry.induct)
  case (1 m net a)
  show ?case
  proof (cases rule: ewr_cases [of net a m])
    case (ok r) with "1.prems" show ?thesis by simp
  next
    case (stop err) with "1.prems" show ?thesis by simp
  next
    case (retry err)
    show ?thesis
    proof (cases i)
      case 0 with retry show ?thesis by simp
    next
      case (Suc j)
      with "1.prems" retry(4) have "j < length (snd (executeWithRetry m net (a + 1)))" by simp
      moreover from retry(2,3) have "a < m \<and> isRetryable err" by simp
      ultimately show ?thesis using "1.IH" [OF retry(1) _ refl, of j] Suc by simp
    qed
  qed
qed

lemma ewr_last:
  "executeOnce (net (a + length (snd (executeWithRetry m net a)))) = Inl err
     \<Longrightarrow> isRetryable err \<Longrightarrow> m \<le> a + length (snd (executeWithRetry m net a))"
proof (induction m net a rule: executeWithRetry.induct)
  case (1 m net a)
  show ?case
  proof (cases rule: ewr_cases [of net a m])
    case (ok r) with "1.prems" show ?thesis by simp
  next
    case (stop err') with "1.prems" show ?thesis by simp
  next
    case (retry err')
    from "1.IH" [OF retry(1)] retry(2,3) "1.prems" retry(4) show ?thesis by simp
  qed
qed


lemma ewr_reach:
  "(\<forall>j. a \<le> j \<and> j < k \<longrightarrow> (\<exists>err. executeOnce (net j) = Inl err \<and> isRetryable err))
     \<Longrightarrow> k \<le> m \<Longrightarrow> a \<le> k \<Longrightarrow> k - a \<le> length (snd (executeWithRetry m net a))"
proof (induction m net a rule: executeWithRetry.induct)
  case (1 m net a)
  show ?case
  proof (cases "a = k")
    case True then show ?thesis by simp
  next
    case False
    with "1.prems" have lt: "a < k" by simp
    with "1.prems" obtain err where err: "executeOnce (net a) = Inl err" "isRetryable err"
      by blast
    from lt "1.prems" have am: "a < m" by simp
    have step: "executeWithRetry m net a
         = (fst (executeWithRetry m net (a + 1)), 2 ^ a * 100 # snd (executeWithRetry m net (a + 1)))"
      using err(1) am err(2) by (rule ewr_unfold_retry)
    have "k - (a + 1) \<le> length (snd (executeWithRetry m net (a + 1)))"
      using "1.IH" [OF err(1) _ refl] am err(2) "1.prems" lt by simp
    then show ?thesis using lt by (simp add: step)
  qed
qed

lemmas executor_defs =
  execute_def executeWithRetry.simps executeOnce_def isRetryable_def res_ok_def nullish_def
  parseInt10_def isWhiteSpace_def isDigit_def digitsValue_def digitValue_def
  net503_def netRejected_def net429_def

text \<open>
  C7.  \<open>execute\<close> sleeps before each retry and at most \<open>maxRetries\<close> times (2 when the
  configuration gives none); the delays are 100, 200, 400, ... milliseconds; every retry
  follows an attempt that failed with a retryable error; the result is that of the last
  attempt; an attempt that fails retryably is the last only when the retries are used
  up.  Retryable are exactly the rate-limit error, the timeout and a network error with
  status 500 or above, so that a rejected query (\<open>MechSqlError\<close>) or a network error of
  the 4xx class on the first attempt is returned with no retry.
\<close>

theorem execute_retry_policy:
  "length (snd (execute maxRetries net)) \<le> maxRetries
   \<and> snd (execute maxRetries net) = map (\<lambda>i. 2 ^ i * 100) [0 ..< length (snd (execute maxRetries net))]
   \<and> (\<forall>i < length (snd (execute maxRetries net)).
         \<exists>err. executeOnce (net i) = Inl err \<and> isRetryable err)
   \<and> fst (execute maxRetries net) = executeOnce (net (length (snd (execute maxRetries net))))
   \<and> (\<forall>err. fst (execute maxRetries net) = Inl err \<and> isRetryable err
         \<longrightarrow> length (snd (execute maxRetries net)) = maxRetries)
   \<and> (\<forall>err. executeOnce (net 0) = Inl err \<and> \<not> isRetryable err
         \<longrightarrow> execute maxRetries net = (Inl err, []))
   \<and> (\<forall>err. isRetryable err \<longleftrightarrow>
         (\<exists>retryAfter. err = MechRateLimitError retryAfter) \<or> err = MechTimeoutError
         \<or> (\<exists>status \<ge> 500. err = MechNetworkError (Some status)))
   \<and> resolveMaxRetries None = Inr 2"
proof -
  let ?ds = "snd (execute maxRetries net)"
  have a: "length ?ds \<le> maxRetries"
    using ewr_bound [of 0 maxRetries net] by (simp add: execute_def)
  have b: "?ds = map (\<lambda>i. 2 ^ i * 100) [0 ..< length ?ds]"
    using ewr_delays [of maxRetries net 0] by (simp add: execute_def)
  have c: "\<forall>i < length ?ds. \<exists>err. executeOnce (net i) = Inl err \<and> isRetryable err"
    using ewr_cause [of _ maxRetries net 0] by (auto simp: execute_def)
  have d: "fst (execute maxRetries net) = executeOnce (net (length ?ds))"
    using ewr_result [of maxRetries net 0] by (simp add: execute_def)
  have e: "length ?ds = maxRetries"
    if "fst (execute maxRetries net) = Inl err" "isRetryable err" for err
    using that a d ewr_last [of net 0 maxRetries err] by (simp add: execute_def)
  have f: "execute maxRetries net = (Inl err, [])"
    if "executeOnce (net 0) = Inl err" "\<not> isRetryable err" for err
    using that by (simp add: execute_def ewr_unfold_stop)
  have g: "isRetryable err \<longleftrightarrow>
         (\<exists>retryAfter. err = MechRateLimitError retryAfter) \<or> err = MechTimeoutError
         \<or> (\<exists>status \<ge> 500. err = MechNetworkError (Some status))" for err
    by (cases err) (auto simp: isRetryable_def split: option.splits)
  have h: "resolveMaxRetries None = Inr 2"
    by (simp add: resolveMaxRetries_def nullish_def)
  show ?thesis using a b c d e f g h by blast
qed


theorem execute_retry_policy_witness:
  "execute 2 net503 = (Inl (MechNetworkError (Some 503)), [100, 200])
   \<and> execute 2 netRejected = (Inl (MechSqlError ''Invalid SQL''), [])"
proof -
  have "execute 2 net503 = (Inl (MechNetworkError (Some 503)), [100, 200])"
    by (simp add: executor_defs)
  moreover
  have "executeOnce (netRejected 0) = Inl (MechSqlError ''Invalid SQL'')
        \<and> \<not> isRetryable (MechSqlError ''Invalid SQL'')"
    by (simp add: executor_defs)
  ultimately show ?thesis
    using execute_retry_policy [of 2 netRejected] by blast
qed

text \<open>
  C8 (as amended).  A rate-limit error is retried like the other retryable errors: when
  attempt \<open>i\<close> is reached, fails with a rate-limit error and retries are left, the
  executor sleeps its own backoff of \<open>100 * 2 ^ i\<close> milliseconds, whatever retry-after
  the error carries.
\<close>

theorem rate_limit_backoff:
  assumes limited: "executeOnce (net i) = Inl (MechRateLimitError retryAfter)"
    and more: "i < maxRetries"
    and earlier: "\<forall>j < i. \<exists>err. executeOnce (net j) = Inl err \<and> isRetryable err"
  shows "i < length (snd (execute maxRetries net))
       \<and> snd (execute maxRetries net) ! i = 2 ^ i * 100"
proof -
  have "\<forall>j. 0 \<le> j \<and> j < Suc i \<longrightarrow> (\<exists>err. executeOnce (net j) = Inl err \<and> isRetryable err)"
    using limited earlier by (auto simp: less_Suc_eq isRetryable_def)
  then have "Suc i - 0 \<le> length (snd (executeWithRetry maxRetries net 0))"
    using more by (intro ewr_reach) auto
  then have len: "i < length (snd (execute maxRetries net))"
    by (simp add: execute_def)
  have "snd (execute maxRetries net)
          = map (\<lambda>i. 2 ^ i * 100) [0 ..< length (snd (execute maxRetries net))]"
    using ewr_delays [of maxRetries net 0] by (simp add: execute_def)
  then have "snd (execute maxRetries net) ! i
               = map (\<lambda>i. 2 ^ i * 100) [0 ..< length (snd (execute maxRetries net))] ! i"
    by simp
  also have "\<dots> = 2 ^ i * 100" using len by simp
  finally show ?thesis using len by simp
qed


theorem rate_limit_backoff_witness:
  "0 < length (snd (execute 2 net429)) \<and> snd (execute 2 net429) ! 0 = 100"
proof -
  have limited: "executeOnce (net429 0) = Inl (MechRateLimitError (Some 60000))"
    by (simp add: executor_defs)
  have more: "(0::nat) < 2" by simp
  have earlier: "\<forall>j < (0::nat). \<exists>err. executeOnce (net429 j) = Inl err \<and> isRetryable err"
    by simp
  show ?thesis
    using rate_limit_backoff [OF limited more earlier] by simp
qed

text \<open>
  C8, as stated, fails on a 429 response with \<open>Retry-After: 60\<close>: the error carries
  60000 milliseconds, and the executor retries after 100.
\<close>

theorem rate_limit_retry_after_counterexample:
  "executeOnce (net429 0) = Inl (MechRateLimitError (Some 60000))
   \<and> execute 2 net429 = (Inr \<lparr>rows = [], rowCount = 0\<rparr>, [100])"
  by (simp add: executor_defs)

subsection \<open>PBKDF2 hasher\<close>

lemma digitChar_isDigit: "d < 10 \<Longrightarrow> isDigit (digitChar d)"
  by (simp add: isDigit_def digitChar_def)

lemma digitChar_value: "d < 10 \<Longrightarrow> digitValue (digitChar d) = d"
  by (simp add: digitValue_def digitChar_def)

lemma decimal_nonempty: "decimal n \<noteq> []"
  by (subst decimal.simps) simp

lemma decimal_digits: "list_all isDigit (decimal n)"
proof (induction n rule: decimal.induct)
  case (1 n)
  show ?case
    by (subst decimal.simps) (use 1 in \<open>auto simp: digitChar_isDigit\<close>)
qed

lemma digitsValue_snoc: "digitsValue (ds @ [c]) = digitsValue ds * 10 + digitValue c"
  by (simp add: digitsValue_def)

lemma digitsValue_decimal: "digitsValue (decimal n) = n"
proof (induction n rule: decimal.induct)
  case (1 n)
  show ?case
  proof (cases "n < 10")
    case True
    then show ?thesis
      by (subst decimal.simps) (simp add: digitsValue_def digitChar_value)
  next
    case False
    with 1 have "digitsValue (decimal (n div 10)) = n div 10" by simp
    with False show ?thesis
      by (subst decimal.simps) (simp add: digitsValue_snoc digitChar_value)
  qed
qed

lemma isDigit_not_white: "isDigit c \<Longrightarrow> \<not> isWhiteSpace c"
  by (auto simp: isDigit_def isWhiteSpace_def Let_def)

lemma trim_digits:
  assumes "list_all isDigit s"
  shows "trim s = s"
proof (cases s rule: rev_cases)
  case Nil then show ?thesis by (simp add: trim_def)
next
  case (snoc ys y)
  with assms have "\<not> isWhiteSpace y" by (simp add: isDigit_not_white)
  moreover have "dropWhile isWhiteSpace s = s"
    using assms by (cases s) (auto simp: isDigit_not_white)
  ultimately show ?thesis by (simp add: trim_def snoc)
qed

lemma takeWhile_all: "list_all p s \<Longrightarrow> takeWhile p s = s"
  by (induction s) auto

lemma dropWhile_all: "list_all p s \<Longrightarrow> dropWhile p s = []"
  by (induction s) auto

lemma unsignedDecimal_digits:
  assumes "list_all isDigit s" "s \<noteq> []"
  shows "unsignedDecimal s = Some (of_nat (digitsValue s))"
  using assms
  by (simp add: unsignedDecimal_def takeWhile_all dropWhile_all exponentPart_def scale10_def)

lemma isDigit_chars:
  "isDigit c \<Longrightarrow> c \<noteq> CHR ''x'' \<and> c \<noteq> CHR ''X'' \<and> c \<noteq> CHR ''o'' \<and> c \<noteq> CHR ''O''
     \<and> c \<noteq> CHR ''b'' \<and> c \<noteq> CHR ''B'' \<and> c \<noteq> CHR ''+'' \<and> c \<noteq> CHR ''-'' \<and> c \<noteq> CHR ''$''"
  by (auto simp: isDigit_def)

lemma Number_digits:
  assumes digs: "list_all isDigit s" and ne: "s \<noteq> []"
  shows "Number s = Some (of_nat (digitsValue s))"
proof -
  have t: "trim s = s" using digs by (rule trim_digits)
  have hd: "isDigit (hd s)" using digs ne by (cases s) auto
  have snd: "length s > 2 \<Longrightarrow> isDigit (s ! 1)"
    using digs by (simp add: list_all_length)
  show ?thesis
    using ne hd snd isDigit_chars [of "hd s"] isDigit_chars [of "s ! 1"]
    by (auto simp: Number_def t Let_def unsignedDecimal_digits [OF digs ne])
qed

lemma Number_decimal: "Number (decimal n) = Some (of_nat n)"
  using Number_digits [OF decimal_digits decimal_nonempty, of n]
  by (simp add: digitsValue_decimal)

lemma alphabet_length: "length base64url_alphabet = 64"
  by (simp add: base64url_alphabet_def)

lemma alphabet_distinct: "distinct base64url_alphabet"
  by (simp add: base64url_alphabet_def)

lemma alphabet_value: "i < 64 \<Longrightarrow> base64url_value (base64url_alphabet ! i) = Some i"
  unfolding base64url_value_def
  using map_of_zip_nth [of base64url_alphabet "[0 ..< 64]" i]
  by (simp add: alphabet_length alphabet_distinct)

lemma alphabet_plain:
  "c \<in> set base64url_alphabet \<Longrightarrow> c \<noteq> CHR ''='' \<and> c \<noteq> CHR ''$''"
  by (auto simp: base64url_alphabet_def)

lemma alphabet_nth_plain:
  "i < 64 \<Longrightarrow> base64url_alphabet ! i \<noteq> CHR ''='' \<and> base64url_alphabet ! i \<noteq> CHR ''$''"
  using alphabet_plain [of "base64url_alphabet ! i"] by (simp add: alphabet_length)

lemma decodeSlot_alphabet:
  "i < 64 \<Longrightarrow> decodeSlot lastChunk (Some (base64url_alphabet ! i)) = Inr (Some i)"
  by (simp add: decodeSlot_def alphabet_value alphabet_nth_plain)

lemma byte_bound: "unat (a :: byte) < 256"
  using unsigned_less [of a, where 'a = nat] by simp

lemma sextets_bound: "\<forall>v \<in> set (sextets bs). v < 64"
proof (induction bs rule: sextets.induct)
  case (1 a b c rest)
  with byte_bound [of a] byte_bound [of b] byte_bound [of c] show ?case by auto
next
  case (2 a b)
  with byte_bound [of a] byte_bound [of b] show ?case by auto
next
  case (3 a)
  with byte_bound [of a] show ?case by auto
qed simp

lemma regroup:
  fixes p q r s t u :: nat
  shows "((p * 64 + (q * 16 + r)) * 64 + (s * 4 + t)) * 64 + u
           = (p * 4 + q) * 65536 + (r * 16 + s) * 256 + (t * 64 + u)"
  by (simp add: algebra_simps)

lemma pack3:
  fixes x y z :: nat
  shows "((x div 4 * 64 + (x mod 4 * 16 + y div 16)) * 64 + (y mod 16 * 4 + z div 64)) * 64
           + z mod 64 = x * 65536 + y * 256 + z"
  by (simp only: regroup div_mult_mod_eq)

lemma pack2:
  fixes x y :: nat
  shows "((x div 4 * 64 + (x mod 4 * 16 + y div 16)) * 64 + (y mod 16 * 4 + 0)) * 64 + 0
           = x * 65536 + y * 256 + 0"
proof -
  have "((x div 4 * 64 + (x mod 4 * 16 + y div 16)) * 64 + (y mod 16 * 4 + 0)) * 64 + 0
      = (x div 4 * 4 + x mod 4) * 65536 + (y div 16 * 16 + y mod 16) * 256 + (0 * 64 + 0)"
    by (rule regroup)
  then show ?thesis by (simp only: div_mult_mod_eq)
qed

lemma pack1:
  fixes x :: nat
  shows "((x div 4 * 64 + (x mod 4 * 16 + 0)) * 64 + (0 * 4 + 0)) * 64 + 0
           = x * 65536 + 0 * 256 + 0"
proof -
  have "((x div 4 * 64 + (x mod 4 * 16 + 0)) * 64 + (0 * 4 + 0)) * 64 + 0
      = (x div 4 * 4 + x mod 4) * 65536 + (0 * 16 + 0) * 256 + (0 * 64 + 0)"
    by (rule regroup)
  then show ?thesis by (simp only: div_mult_mod_eq) simp
qed

lemma unpack_a:
  fixes x y z :: nat
  assumes "x < 256" "y < 256" "z < 256"
  shows "(x * 65536 + y * 256 + z) div 65536 mod 256 = x"
proof -
  have "y * 256 + z < 65536" using assms by simp
  then have "(x * 65536 + (y * 256 + z)) div 65536 = x" by simp
  then show ?thesis using assms by (simp add: add.assoc)
qed

lemma unpack_b:
  fixes x y z :: nat
  assumes "x < 256" "y < 256" "z < 256"
  shows "(x * 65536 + y * 256 + z) div 256 mod 256 = y"
proof -
  have "x * 65536 + y * 256 + z = (x * 256 + y) * 256 + z" by simp
  then have "(x * 65536 + y * 256 + z) div 256 = x * 256 + y" using assms by simp
  then show ?thesis using assms by simp
qed

lemma unpack_c:
  fixes x y z :: nat
  assumes "x < 256" "y < 256" "z < 256"
  shows "(x * 65536 + y * 256 + z) mod 256 = z"
proof -
  have "x * 65536 + y * 256 + z = z + 256 * (x * 256 + y)" by simp
  then have "(x * 65536 + y * 256 + z) mod 256 = (z + 256 * (x * 256 + y)) mod 256"
    by (rule arg_cong)
  also have "\<dots> = z mod 256" by (rule mod_mult_self2)
  also have "\<dots> = z" using assms by simp
  finally show ?thesis .
qed

lemma buffer4:
  "foldl (\<lambda>acc v. acc * 64 + (case v of None \<Rightarrow> 0 | Some n \<Rightarrow> n)) (0::nat) [v1, v2, v3, v4]
     = (((case v1 of None \<Rightarrow> 0 | Some n \<Rightarrow> n) * 64 + (case v2 of None \<Rightarrow> 0 | Some n \<Rightarrow> n)) * 64
          + (case v3 of None \<Rightarrow> 0 | Some n \<Rightarrow> n)) * 64 + (case v4 of None \<Rightarrow> 0 | Some n \<Rightarrow> n)"
  by simp

lemma chunkBytes3:
  "chunkBytes [Some (unat a div 4), Some (unat a mod 4 * 16 + unat b div 16),
               Some (unat b mod 16 * 4 + unat c div 64), Some (unat c mod 64)] = [a, b, c]"
proof -
  note bounds = byte_bound [of a] byte_bound [of b] byte_bound [of c]
  have "chunkBytes [Some (unat a div 4), Some (unat a mod 4 * 16 + unat b div 16),
               Some (unat b mod 16 * 4 + unat c div 64), Some (unat c mod 64)]
      = [of_nat ((unat a * 65536 + unat b * 256 + unat c) div 65536 mod 256),
         of_nat ((unat a * 65536 + unat b * 256 + unat c) div 256 mod 256),
         of_nat ((unat a * 65536 + unat b * 256 + unat c) mod 256)]"
    unfolding chunkBytes_def buffer4 option.case pack3 Let_def by simp
  also have "\<dots> = [of_nat (unat a), of_nat (unat b), of_nat (unat c)]"
    by (simp only: unpack_a [OF bounds] unpack_b [OF bounds] unpack_c [OF bounds])
  finally show ?thesis by simp
qed

lemma chunkBytes2:
  "chunkBytes [Some (unat a div 4), Some (unat a mod 4 * 16 + unat b div 16),
               Some (unat b mod 16 * 4), None] = [a, b]"
proof -
  have z: "(0::nat) < 256" by simp
  note bounds = byte_bound [of a] byte_bound [of b] z
  have "unat b mod 16 * 4 = unat b mod 16 * 4 + 0" by simp
  then have "chunkBytes [Some (unat a div 4), Some (unat a mod 4 * 16 + unat b div 16),
               Some (unat b mod 16 * 4), None]
      = chunkBytes [Some (unat a div 4), Some (unat a mod 4 * 16 + unat b div 16),
               Some (unat b mod 16 * 4 + 0), None]"
    by simp
  also have "\<dots> = [of_nat ((unat a * 65536 + unat b * 256 + 0) div 65536 mod 256),
         of_nat ((unat a * 65536 + unat b * 256 + 0) div 256 mod 256)]"
    unfolding chunkBytes_def buffer4 option.case pack2 Let_def by simp
  also have "\<dots> = [of_nat (unat a), of_nat (unat b)]"
    by (simp only: unpack_a [OF bounds] unpack_b [OF bounds])
  finally show ?thesis by simp
qed

lemma chunkBytes1:
  "chunkBytes [Some (unat a div 4), Some (unat a mod 4 * 16), None, None] = [a]"
proof -
  have z: "(0::nat) < 256" by simp
  note bounds = byte_bound [of a] z z
  have "unat a mod 4 * 16 = unat a mod 4 * 16 + 0" by simp
  then have "chunkBytes [Some (unat a div 4), Some (unat a mod 4 * 16), None, None]
      = chunkBytes [Some (unat a div 4), Some (unat a mod 4 * 16 + 0), None, None]"
    by simp
  also have "\<dots> = [of_nat ((unat a * 65536 + 0 * 256 + 0) div 65536 mod 256)]"
  proof -
    have "((unat a div 4 * 64 + (unat a mod 4 * 16 + 0)) * 64 + 0) * 64 + 0
            = ((unat a div 4 * 64 + (unat a mod 4 * 16 + 0)) * 64 + (0 * 4 + 0)) * 64 + 0"
      by simp
    then show ?thesis
      unfolding chunkBytes_def buffer4 option.case Let_def by (simp only: pack1) simp
  qed
  also have "\<dots> = [of_nat (unat a)]"
    by (simp only: unpack_a [OF bounds])
  finally show ?thesis by simp
qed

lemma decodeSlot_None: "decodeSlot lastChunk None = Inr None"
  by (simp add: decodeSlot_def)

lemma decodeSlots4:
  assumes "s1 < 64" "s2 < 64" "s3 < 64" "s4 < 64"
  shows "decodeSlots lastChunk [Some (base64url_alphabet ! s1), Some (base64url_alphabet ! s2),
            Some (base64url_alphabet ! s3), Some (base64url_alphabet ! s4)]
          = Inr [Some s1, Some s2, Some s3, Some s4]"
  using assms by (simp add: decodeSlot_alphabet)

lemma decodeSlots3:
  assumes "s1 < 64" "s2 < 64" "s3 < 64"
  shows "decodeSlots lastChunk [Some (base64url_alphabet ! s1), Some (base64url_alphabet ! s2),
            Some (base64url_alphabet ! s3), None]
          = Inr [Some s1, Some s2, Some s3, None]"
  using assms by (simp add: decodeSlot_alphabet decodeSlot_None)

lemma decodeSlots2:
  assumes "s1 < 64" "s2 < 64"
  shows "decodeSlots lastChunk [Some (base64url_alphabet ! s1), Some (base64url_alphabet ! s2),
            None, None]
          = Inr [Some s1, Some s2, None, None]"
  using assms by (simp add: decodeSlot_alphabet decodeSlot_None)

lemma sextet_bounds:
  "unat (a::byte) div 4 < 64" "unat (a::byte) mod 4 * 16 + unat (b::byte) div 16 < 64"
  "unat (b::byte) mod 16 * 4 + unat (c::byte) div 64 < 64" "unat (c::byte) mod 64 < 64"
  "unat (a::byte) mod 4 * 16 < 64" "unat (b::byte) mod 16 * 4 < 64"
  using byte_bound [of a] byte_bound [of b] byte_bound [of c] by simp_all

lemma decode_encode: "decodeChunks (base64url_encode bs False) = Inr bs"
proof (induction bs rule: sextets.induct)
  case (1 a b c rest)
  let ?E = "map ((!) base64url_alphabet) (sextets rest)"
  have IH: "decodeChunks ?E = Inr rest"
    using 1 by (simp add: base64url_encode_def)
  show ?case
    apply (simp add: base64url_encode_def)
    apply (subst decodeChunks.simps)
    apply (simp add: decodeSlots4 sextet_bounds chunkBytes3 IH del: decodeSlots.simps)
    done
next
  case (2 a b)
  show ?case
    apply (simp add: base64url_encode_def)
    apply (subst decodeChunks.simps)
    apply (simp add: decodeSlots3 sextet_bounds del: decodeSlots.simps)
    apply (subst decodeChunks.simps)
    apply (simp add: chunkBytes2)
    done
next
  case (3 a)
  show ?case
    apply (simp add: base64url_encode_def)
    apply (subst decodeChunks.simps)
    apply (simp add: decodeSlots2 sextet_bounds numeral_2_eq_2 del: decodeSlots.simps)
    apply (subst decodeChunks.simps)
    apply (simp add: chunkBytes1)
    done
next
  case 4
  show ?case
    by (simp add: base64url_encode_def decodeChunks.simps)
qed

lemma split_single: "sep \<notin> set a \<Longrightarrow> split sep a = [a]"
  by (induction a) auto

lemma split_cons: "sep \<notin> set a \<Longrightarrow> split sep (a @ sep # rest) = a # split sep rest"
  by (induction a) auto

lemma xor_zero_iff: "(x :: byte) XOR y = 0 \<longleftrightarrow> x = y"
  by (metis bit.xor_left_self xor.right_neutral)

lemma ucast_zero_iff: "(ucast (w :: byte) :: 32 word) = 0 \<longleftrightarrow> w = 0"
proof
  assume z: "(ucast w :: 32 word) = 0"
  show "w = 0"
  proof (rule bit_eqI)
    fix n
    have "bit (ucast w :: 32 word) n = (n < 32 \<and> bit w n)"
      by (simp add: bit_ucast_iff)
    moreover have "bit w n \<Longrightarrow> n < 8"
      using bit_imp_le_length [of w n] by simp
    ultimately show "bit w n \<longleftrightarrow> bit (0 :: byte) n"
      using z by auto
  qed
qed simp

lemma timingSafeLoop_zero:
  "length a = length b \<Longrightarrow> timingSafeLoop a b d = 0 \<longleftrightarrow> d = 0 \<and> a = b"
proof (induction a b arbitrary: d rule: list_induct2)
  case Nil then show ?case by simp
next
  case (Cons x xs y ys)
  have "d OR ucast (x XOR y) = 0 \<longleftrightarrow> d = 0 \<and> x = y"
    by (simp add: or_eq_0_iff ucast_zero_iff xor_zero_iff)
  with Cons show ?case by auto
qed

lemma timingSafeEqual_iff: "timingSafeEqual a b \<longleftrightarrow> a = b"
  by (auto simp: timingSafeEqual_def timingSafeLoop_zero)

lemma encode_plain: "CHR ''$'' \<notin> set (encodeBase64UrlNoPadding bs)"
proof
  assume "CHR ''$'' \<in> set (encodeBase64UrlNoPadding bs)"
  then obtain v where v: "v \<in> set (sextets bs)" and c: "base64url_alphabet ! v = CHR ''$''"
    by (auto simp: encodeBase64UrlNoPadding_def base64url_encode_def)
  from v sextets_bound have "v < 64" by blast
  then show False using alphabet_nth_plain c by blast
qed

lemma isDigit_not_dollar: "isDigit c \<Longrightarrow> c \<noteq> CHR ''$''"
  by (auto simp: isDigit_def)

lemma decimal_plain: "CHR ''$'' \<notin> set (decimal n)"
proof
  assume "CHR ''$'' \<in> set (decimal n)"
  with decimal_digits [of n] have "isDigit (CHR ''$'')" by (simp add: list_all_iff)
  then show False by (simp add: isDigit_def)
qed

lemma hashName_cases:
  "removeFirst (CHR ''-'') (toLowerCase (digestName h))
     = (case h of SHA256 \<Rightarrow> ''sha256'' | SHA512 \<Rightarrow> ''sha512'')"
  by (cases h) (simp_all add: digestName_def toLowerCase_def toLowerChar_def char_of_def bit_iff_odd)

lemma split_stored:
  assumes name: "CHR ''$'' \<notin> set name"
    and salt: "CHR ''$'' \<notin> set saltB64"
    and key: "CHR ''$'' \<notin> set keyB64"
  shows "split (CHR ''$'')
           (''$pbkdf2$'' @ name @ ''$i='' @ decimal iterations @ ''$l='' @ decimal keyLength
              @ ''$'' @ saltB64 @ ''$'' @ keyB64)
         = [[], ''pbkdf2'', name, ''i='' @ decimal iterations, ''l='' @ decimal keyLength,
            saltB64, keyB64]"
proof -
  let ?d = "CHR ''$''"
  have i: "?d \<notin> set (''i='' @ decimal iterations)" using decimal_plain by simp
  have l: "?d \<notin> set (''l='' @ decimal keyLength)" using decimal_plain by simp
  have p: "?d \<notin> set ''pbkdf2''" by simp
  have e: "?d \<notin> set []" by simp
  have s6: "split ?d (saltB64 @ ?d # keyB64) = [saltB64, keyB64]"
    by (simp only: split_cons [OF salt] split_single [OF key])
  have s5: "split ?d ((''l='' @ decimal keyLength) @ ?d # (saltB64 @ ?d # keyB64))
             = [''l='' @ decimal keyLength, saltB64, keyB64]"
    by (simp only: split_cons [OF l] s6)
  have s4: "split ?d ((''i='' @ decimal iterations) @ ?d #
              ((''l='' @ decimal keyLength) @ ?d # (saltB64 @ ?d # keyB64)))
             = [''i='' @ decimal iterations, ''l='' @ decimal keyLength, saltB64, keyB64]"
    by (simp only: split_cons [OF i] s5)
  have s3: "split ?d (name @ ?d # ((''i='' @ decimal iterations) @ ?d #
              ((''l='' @ decimal keyLength) @ ?d # (saltB64 @ ?d # keyB64))))
             = [name, ''i='' @ decimal iterations, ''l='' @ decimal keyLength, saltB64, keyB64]"
    by (simp only: split_cons [OF name] s4)
  have s2: "split ?d (''pbkdf2'' @ ?d # (name @ ?d # ((''i='' @ decimal iterations) @ ?d #
              ((''l='' @ decimal keyLength) @ ?d # (saltB64 @ ?d # keyB64)))))
             = [''pbkdf2'', name, ''i='' @ decimal iterations, ''l='' @ decimal keyLength,
                saltB64, keyB64]"
    by (simp only: split_cons [OF p] s3)
  have s1: "split ?d ([] @ ?d # (''pbkdf2'' @ ?d # (name @ ?d # ((''i='' @ decimal iterations) @ ?d #
              ((''l='' @ decimal keyLength) @ ?d # (saltB64 @ ?d # keyB64))))))
             = [[], ''pbkdf2'', name, ''i='' @ decimal iterations, ''l='' @ decimal keyLength,
                saltB64, keyB64]"
    by (simp only: split_cons [OF e] s2)
  have "''$pbkdf2$'' @ name @ ''$i='' @ decimal iterations @ ''$l='' @ decimal keyLength
              @ ''$'' @ saltB64 @ ''$'' @ keyB64
      = [] @ ?d # (''pbkdf2'' @ ?d # (name @ ?d # ((''i='' @ decimal iterations) @ ?d #
              ((''l='' @ decimal keyLength) @ ?d # (saltB64 @ ?d # keyB64)))))"
    by simp
  then show ?thesis by (simp only: s1)
qed


lemma digestName_plain:
  "CHR ''$'' \<notin> set (case h of SHA256 \<Rightarrow> ''sha256'' | SHA512 \<Rightarrow> ''sha512'')"
  by (cases h) simp_all

lemma parsedHash_cases:
  "(if (case h of SHA256 \<Rightarrow> ''sha256'' | SHA512 \<Rightarrow> ''sha512'') = ''sha256'' then Some SHA256
    else if (case h of SHA256 \<Rightarrow> ''sha256'' | SHA512 \<Rightarrow> ''sha512'') = ''sha512'' then Some SHA512
    else None) = Some h"
  by (cases h) simp_all

lemma pbkdf2_verify_stored:
  assumes it: "MIN_ITERATIONS \<le> iterations" "iterations \<le> MAX_ITERATIONS"
    and kl: "MIN_KEY_LENGTH \<le> length key" "length key \<le> MAX_KEY_LENGTH"
    and sl: "MIN_SALT_LENGTH \<le> length salt" "length salt \<le> MAX_SALT_LENGTH"
  shows "pbkdf2_verify deriveBits
           (''$pbkdf2$'' @ (case h of SHA256 \<Rightarrow> ''sha256'' | SHA512 \<Rightarrow> ''sha512'')
              @ ''$i='' @ decimal iterations @ ''$l='' @ decimal (length key)
              @ ''$'' @ encodeBase64UrlNoPadding salt @ ''$'' @ encodeBase64UrlNoPadding key)
           password
         = (case pbkdf2DeriveKeyBytes deriveBits password salt iterations h (length key) of
              Inl e \<Rightarrow> Inl e
            | Inr derivedKey \<Rightarrow> Inr (derivedKey = key))"
proof -
  let ?stored = "''$pbkdf2$'' @ (case h of SHA256 \<Rightarrow> ''sha256'' | SHA512 \<Rightarrow> ''sha512'')
              @ ''$i='' @ decimal iterations @ ''$l='' @ decimal (length key)
              @ ''$'' @ encodeBase64UrlNoPadding salt @ ''$'' @ encodeBase64UrlNoPadding key"
  have start: "startsWith ?stored ''$pbkdf2$''"
    by (simp add: startsWith_def)
  have parts: "split (CHR ''$'') ?stored
         = [[], ''pbkdf2'', (case h of SHA256 \<Rightarrow> ''sha256'' | SHA512 \<Rightarrow> ''sha512''),
            ''i='' @ decimal iterations, ''l='' @ decimal (length key),
            encodeBase64UrlNoPadding salt, encodeBase64UrlNoPadding key]"
    by (rule split_stored [OF digestName_plain encode_plain encode_plain])
  have dsalt: "decodeBase64UrlNoPadding (encodeBase64UrlNoPadding salt) = Inr salt"
    and dkey: "decodeBase64UrlNoPadding (encodeBase64UrlNoPadding key) = Inr key"
    by (simp_all add: decodeBase64UrlNoPadding_def encodeBase64UrlNoPadding_def decode_encode)
  have num: "Number (drop 2 (''i='' @ decimal iterations)) = Some (of_nat iterations)"
    "Number (drop 2 (''l='' @ decimal (length key))) = Some (of_nat (length key))"
    by (simp_all add: Number_decimal)
  have pre: "startsWith (''i='' @ decimal iterations) ''i=''"
    "startsWith (''l='' @ decimal (length key)) ''l=''"
    by (simp_all add: startsWith_def)
  have nth: "[a0, a1, a2, a3, a4, a5, a6] ! 2 = a2" "[a0, a1, a2, a3, a4, a5, a6] ! 3 = a3"
    "[a0, a1, a2, a3, a4, a5, a6] ! 4 = a4" "[a0, a1, a2, a3, a4, a5, a6] ! 5 = a5"
    "[a0, a1, a2, a3, a4, a5, a6] ! 6 = a6" for a0 a1 a2 a3 a4 a5 a6 :: string
    by (simp_all add: numeral_nat)
  have len7: "length [a0, a1, a2, a3, a4, a5, a6] = 7" for a0 a1 a2 a3 a4 a5 a6 :: string
    by simp
  show ?thesis
    unfolding pbkdf2_verify_def
    apply (simp only: start parts Let_def nth len7 pre num dsalt dkey parsedHash_cases
             if_True if_False not_True_eq_False not_False_eq_True simp_thms
             option.case sum.case)
    using it kl sl
    apply (simp add: timingSafeEqual_iff split: sum.splits)
    done
qed


lemma pbkdf2_hash_stored:
  "pbkdf2_hash deriveBits rng options password
     = (case pbkdf2DeriveKeyBytes deriveBits password
               (rng (nullish (opt_saltLength options) 16))
               (nullish (opt_iterations options) 600000)
               (nullish (opt_hash options) SHA256)
               (nullish (opt_keyLength options) 32) of
          Inl e \<Rightarrow> Inl e
        | Inr derivedKey \<Rightarrow>
            Inr (''$pbkdf2$''
                 @ (case nullish (opt_hash options) SHA256 of
                      SHA256 \<Rightarrow> ''sha256'' | SHA512 \<Rightarrow> ''sha512'')
                 @ ''$i='' @ decimal (nullish (opt_iterations options) 600000)
                 @ ''$l='' @ decimal (nullish (opt_keyLength options) 32)
                 @ ''$'' @ encodeBase64UrlNoPadding (rng (nullish (opt_saltLength options) 16))
                 @ ''$'' @ encodeBase64UrlNoPadding derivedKey))"
  by (simp add: pbkdf2_hash_def Let_def hashName_cases split: sum.splits)

lemma pbkdf2_hash_then_verify:
  assumes it: "MIN_ITERATIONS \<le> nullish (opt_iterations options) 600000"
              "nullish (opt_iterations options) 600000 \<le> MAX_ITERATIONS"
    and kl: "MIN_KEY_LENGTH \<le> nullish (opt_keyLength options) 32"
            "nullish (opt_keyLength options) 32 \<le> MAX_KEY_LENGTH"
    and sl: "MIN_SALT_LENGTH \<le> nullish (opt_saltLength options) 16"
            "nullish (opt_saltLength options) 16 \<le> MAX_SALT_LENGTH"
    and rnd: "length (rng (nullish (opt_saltLength options) 16))
                = nullish (opt_saltLength options) 16"
    and keyP: "pbkdf2DeriveKeyBytes deriveBits P (rng (nullish (opt_saltLength options) 16))
                 (nullish (opt_iterations options) 600000) (nullish (opt_hash options) SHA256)
                 (nullish (opt_keyLength options) 32) = Inr keyP"
    and lenP: "length keyP = nullish (opt_keyLength options) 32"
  shows "\<exists>stored. pbkdf2_hash deriveBits rng options P = Inr stored
           \<and> pbkdf2_verify deriveBits stored Q
               = (case pbkdf2DeriveKeyBytes deriveBits Q (rng (nullish (opt_saltLength options) 16))
                        (nullish (opt_iterations options) 600000)
                        (nullish (opt_hash options) SHA256)
                        (nullish (opt_keyLength options) 32) of
                    Inl e \<Rightarrow> Inl e
                  | Inr keyQ \<Rightarrow> Inr (keyQ = keyP))"
proof -
  let ?salt = "rng (nullish (opt_saltLength options) 16)"
  let ?stored = "''$pbkdf2$''
                 @ (case nullish (opt_hash options) SHA256 of
                      SHA256 \<Rightarrow> ''sha256'' | SHA512 \<Rightarrow> ''sha512'')
                 @ ''$i='' @ decimal (nullish (opt_iterations options) 600000)
                 @ ''$l='' @ decimal (length keyP)
                 @ ''$'' @ encodeBase64UrlNoPadding ?salt
                 @ ''$'' @ encodeBase64UrlNoPadding keyP"
  have h: "pbkdf2_hash deriveBits rng options P = Inr ?stored"
    by (simp add: pbkdf2_hash_stored keyP lenP)
  have v: "pbkdf2_verify deriveBits ?stored Q
         = (case pbkdf2DeriveKeyBytes deriveBits Q ?salt (nullish (opt_iterations options) 600000)
                   (nullish (opt_hash options) SHA256) (length keyP) of
              Inl e \<Rightarrow> Inl e
            | Inr derivedKey \<Rightarrow> Inr (derivedKey = keyP))"
    using it kl sl by (intro pbkdf2_verify_stored) (simp_all add: rnd lenP)
  show ?thesis using h v by (simp add: lenP)
qed

lemma pbkdf2_verify_low_iterations:
  assumes it: "iterations < MIN_ITERATIONS"
  shows "pbkdf2_verify deriveBits
           (''$pbkdf2$'' @ (case h of SHA256 \<Rightarrow> ''sha256'' | SHA512 \<Rightarrow> ''sha512'')
              @ ''$i='' @ decimal iterations @ ''$l='' @ decimal keyLength
              @ ''$'' @ encodeBase64UrlNoPadding salt @ ''$'' @ encodeBase64UrlNoPadding key)
           password
         = Inr False"
proof -
  let ?stored = "''$pbkdf2$'' @ (case h of SHA256 \<Rightarrow> ''sha256'' | SHA512 \<Rightarrow> ''sha512'')
              @ ''$i='' @ decimal iterations @ ''$l='' @ decimal keyLength
              @ ''$'' @ encodeBase64UrlNoPadding salt @ ''$'' @ encodeBase64UrlNoPadding key"
  have start: "startsWith ?stored ''$pbkdf2$''"
    by (simp add: startsWith_def)
  have parts: "split (CHR ''$'') ?stored
         = [[], ''pbkdf2'', (case h of SHA256 \<Rightarrow> ''sha256'' | SHA512 \<Rightarrow> ''sha512''),
            ''i='' @ decimal iterations, ''l='' @ decimal keyLength,
            encodeBase64UrlNoPadding salt, encodeBase64UrlNoPadding key]"
    by (rule split_stored [OF digestName_plain encode_plain encode_plain])
  have num: "Number (drop 2 (''i='' @ decimal iterations)) = Some (of_nat iterations)"
    by (simp add: Number_decimal)
  have pre: "startsWith (''i='' @ decimal iterations) ''i=''"
    "startsWith (''l='' @ decimal keyLength) ''l=''"
    by (simp_all add: startsWith_def)
  have nth: "[a0, a1, a2, a3, a4, a5, a6] ! 2 = a2" "[a0, a1, a2, a3, a4, a5, a6] ! 3 = a3"
    "[a0, a1, a2, a3, a4, a5, a6] ! 4 = a4" "[a0, a1, a2, a3, a4, a5, a6] ! 5 = a5"
    "[a0, a1, a2, a3, a4, a5, a6] ! 6 = a6" for a0 a1 a2 a3 a4 a5 a6 :: string
    by (simp_all add: numeral_nat)
  have len7: "length [a0, a1, a2, a3, a4, a5, a6] = 7" for a0 a1 a2 a3 a4 a5 a6 :: string
    by simp
  show ?thesis
    unfolding pbkdf2_verify_def
    apply (simp only: start parts Let_def nth len7 pre num
             if_True if_False not_True_eq_False not_False_eq_True simp_thms
             option.case sum.case)
    using it
    apply simp
    done
qed


lemma example_key:
  "pbkdf2DeriveKeyBytes exampleDeriveBits P salt iterations SHA256 32
     = Inr (take 32 (textEncode P @ replicate 32 0))"
  by (simp add: pbkdf2DeriveKeyBytes_def exampleDeriveBits_def)

lemma example_encodings:
  "encodeBase64UrlNoPadding (zeroRng 16) = ''AAAAAAAAAAAAAAAAAAAAAA''"
  "encodeBase64UrlNoPadding (take 32 (textEncode ''secret-pw'' @ replicate 32 0))
     = ''c2VjcmV0LXB3AAAAAAAAAAAAAAAAAAAAAAAAAAAAAAA''"
  by code_simp+

lemma example_keys_differ:
  "take 32 (textEncode ''other-pw'' @ replicate 32 0)
     \<noteq> take 32 (textEncode ''secret-pw'' @ replicate 32 0)"
  by code_simp

lemma example_decimals:
  "decimal 600000 = ''600000''" "decimal 1000 = ''1000''" "decimal 32 = ''32''"
  by (simp_all add: decimal.simps [of 600000] decimal.simps [of 60000] decimal.simps [of 6000]
        decimal.simps [of 600] decimal.simps [of 60] decimal.simps [of 6]
        decimal.simps [of 1000] decimal.simps [of 100] decimal.simps [of 10]
        decimal.simps [of "Suc 0"] decimal.simps [of 32] decimal.simps [of 3]
        digitChar_def char_of_def bit_iff_odd)

text \<open>
  C9 (as amended).  Take a PBKDF2 hasher whose options lie within the bounds that
  \<open>verify\<close> enforces (100000 to 2000000 iterations, a key of 16 to 64 bytes, a salt of
  8 to 64 bytes), a random source that fills the salt, and a \<open>deriveBits\<close> that returns
  the requested number of bytes.  Then \<open>hash(P)\<close> returns a stored value,
  \<open>verify(hash(P), P)\<close> is true, and \<open>verify(hash(P), Q)\<close> is true exactly when \<open>Q\<close>
  derives the same key as \<open>P\<close> under the stored salt and parameters: it is false for
  every \<open>Q\<close> whose derived key differs.
\<close>

theorem pbkdf2_verify_after_hash:
  assumes it: "MIN_ITERATIONS \<le> nullish (opt_iterations options) 600000"
              "nullish (opt_iterations options) 600000 \<le> MAX_ITERATIONS"
    and kl: "MIN_KEY_LENGTH \<le> nullish (opt_keyLength options) 32"
            "nullish (opt_keyLength options) 32 \<le> MAX_KEY_LENGTH"
    and sl: "MIN_SALT_LENGTH \<le> nullish (opt_saltLength options) 16"
            "nullish (opt_saltLength options) 16 \<le> MAX_SALT_LENGTH"
    and rnd: "length (rng (nullish (opt_saltLength options) 16))
                = nullish (opt_saltLength options) 16"
    and keyP: "pbkdf2DeriveKeyBytes deriveBits P (rng (nullish (opt_saltLength options) 16))
                 (nullish (opt_iterations options) 600000) (nullish (opt_hash options) SHA256)
                 (nullish (opt_keyLength options) 32) = Inr keyP"
    and lenP: "length keyP = nullish (opt_keyLength options) 32"
    and keyQ: "pbkdf2DeriveKeyBytes deriveBits Q (rng (nullish (opt_saltLength options) 16))
                 (nullish (opt_iterations options) 600000) (nullish (opt_hash options) SHA256)
                 (nullish (opt_keyLength options) 32) = Inr keyQ"
  shows "\<exists>stored.
           hasher_hash (createPbkdf2PasswordHasher deriveBits rng options) P = Inr stored
         \<and> hasher_verify (createPbkdf2PasswordHasher deriveBits rng options) stored P = Inr True
         \<and> hasher_verify (createPbkdf2PasswordHasher deriveBits rng options) stored Q
             = Inr (keyQ = keyP)"
proof -
  note hv = pbkdf2_hash_then_verify [where deriveBits = deriveBits and rng = rng
      and options = options and P = P and keyP = keyP, OF it kl sl rnd keyP lenP]
  from hv [of P]
  obtain stored where h: "pbkdf2_hash deriveBits rng options P = Inr stored"
    and vP: "pbkdf2_verify deriveBits stored P = Inr True"
    by (auto simp: keyP)
  from hv [of Q]
  obtain stored' where h': "pbkdf2_hash deriveBits rng options P = Inr stored'"
    and vQ: "pbkdf2_verify deriveBits stored' Q = Inr (keyQ = keyP)"
    by (auto simp: keyQ)
  from h h' have "stored' = stored" by simp
  with h vP vQ show ?thesis
    by (auto simp: createPbkdf2PasswordHasher_def)
qed

theorem pbkdf2_verify_after_hash_witness:
  "hasher_hash (createPbkdf2PasswordHasher exampleDeriveBits zeroRng defaultOptions) ''secret-pw''
     = Inr ''$pbkdf2$sha256$i=600000$l=32$AAAAAAAAAAAAAAAAAAAAAA$c2VjcmV0LXB3AAAAAAAAAAAAAAAAAAAAAAAAAAAAAAA''
   \<and> hasher_verify (createPbkdf2PasswordHasher exampleDeriveBits zeroRng defaultOptions)
       ''$pbkdf2$sha256$i=600000$l=32$AAAAAAAAAAAAAAAAAAAAAA$c2VjcmV0LXB3AAAAAAAAAAAAAAAAAAAAAAAAAAAAAAA''
       ''secret-pw'' = Inr True
   \<and> hasher_verify (createPbkdf2PasswordHasher exampleDeriveBits zeroRng defaultOptions)
       ''$pbkdf2$sha256$i=600000$l=32$AAAAAAAAAAAAAAAAAAAAAA$c2VjcmV0LXB3AAAAAAAAAAAAAAAAAAAAAAAAAAAAAAA''
       ''other-pw'' = Inr False"
proof -
  let ?keyP = "take 32 (textEncode ''secret-pw'' @ replicate 32 0) :: byte list"
  let ?keyQ = "take 32 (textEncode ''other-pw'' @ replicate 32 0) :: byte list"
  have opts: "nullish (opt_iterations defaultOptions) 600000 = 600000"
    "nullish (opt_keyLength defaultOptions) 32 = 32"
    "nullish (opt_saltLength defaultOptions) 16 = 16"
    "nullish (opt_hash defaultOptions) SHA256 = SHA256"
    by (simp_all add: defaultOptions_def nullish_def)
  have it: "MIN_ITERATIONS \<le> nullish (opt_iterations defaultOptions) 600000"
           "nullish (opt_iterations defaultOptions) 600000 \<le> MAX_ITERATIONS"
    by (simp_all add: opts MIN_ITERATIONS_def MAX_ITERATIONS_def)
  have kl: "MIN_KEY_LENGTH \<le> nullish (opt_keyLength defaultOptions) 32"
           "nullish (opt_keyLength defaultOptions) 32 \<le> MAX_KEY_LENGTH"
    by (simp_all add: opts MIN_KEY_LENGTH_def MAX_KEY_LENGTH_def)
  have sl: "MIN_SALT_LENGTH \<le> nullish (opt_saltLength defaultOptions) 16"
           "nullish (opt_saltLength defaultOptions) 16 \<le> MAX_SALT_LENGTH"
    by (simp_all add: opts MIN_SALT_LENGTH_def MAX_SALT_LENGTH_def)
  have rnd: "length (zeroRng (nullish (opt_saltLength defaultOptions) 16))
               = nullish (opt_saltLength defaultOptions) 16"
    by (simp add: zeroRng_def)
  have keyP: "pbkdf2DeriveKeyBytes exampleDeriveBits ''secret-pw''
                (zeroRng (nullish (opt_saltLength defaultOptions) 16))
                (nullish (opt_iterations defaultOptions) 600000)
                (nullish (opt_hash defaultOptions) SHA256)
                (nullish (opt_keyLength defaultOptions) 32) = Inr ?keyP"
    by (simp only: opts example_key)
  have keyQ: "pbkdf2DeriveKeyBytes exampleDeriveBits ''other-pw''
                (zeroRng (nullish (opt_saltLength defaultOptions) 16))
                (nullish (opt_iterations defaultOptions) 600000)
                (nullish (opt_hash defaultOptions) SHA256)
                (nullish (opt_keyLength defaultOptions) 32) = Inr ?keyQ"
    by (simp only: opts example_key)
  have lenP: "length ?keyP = nullish (opt_keyLength defaultOptions) 32"
    by (simp add: opts)
  have stored: "pbkdf2_hash exampleDeriveBits zeroRng defaultOptions ''secret-pw''
     = Inr ''$pbkdf2$sha256$i=600000$l=32$AAAAAAAAAAAAAAAAAAAAAA$c2VjcmV0LXB3AAAAAAAAAAAAAAAAAAAAAAAAAAAAAAA''"
    unfolding pbkdf2_hash_stored opts example_key sum.case digest.case
      example_encodings example_decimals
    by simp
  show ?thesis
    using stored example_keys_differ
      pbkdf2_verify_after_hash [where deriveBits = exampleDeriveBits and rng = zeroRng
        and options = defaultOptions and P = "''secret-pw''" and Q = "''other-pw''"
        and keyP = ?keyP and keyQ = ?keyQ, OF it kl sl rnd keyP lenP keyQ]
    by (auto simp: createPbkdf2PasswordHasher_def)
qed

text \<open>
  C9, as stated, fails for a hasher made with 1000 iterations: \<open>hash\<close> writes the
  count into the stored value without checking it, and \<open>verify\<close> rejects every stored
  value below 100000 iterations, so the hasher does not verify its own hash.
\<close>

theorem pbkdf2_fast_options_counterexample:
  "hasher_hash (createPbkdf2PasswordHasher exampleDeriveBits zeroRng fastOptions) ''secret-pw''
     = Inr ''$pbkdf2$sha256$i=1000$l=32$AAAAAAAAAAAAAAAAAAAAAA$c2VjcmV0LXB3AAAAAAAAAAAAAAAAAAAAAAAAAAAAAAA''
   \<and> hasher_verify (createPbkdf2PasswordHasher exampleDeriveBits zeroRng fastOptions)
       ''$pbkdf2$sha256$i=1000$l=32$AAAAAAAAAAAAAAAAAAAAAA$c2VjcmV0LXB3AAAAAAAAAAAAAAAAAAAAAAAAAAAAAAA''
       ''secret-pw'' = Inr False"
proof -
  let ?key = "take 32 (textEncode ''secret-pw'' @ replicate 32 0) :: byte list"
  have opts: "nullish (opt_iterations fastOptions) 600000 = 1000"
    "nullish (opt_keyLength fastOptions) 32 = 32"
    "nullish (opt_saltLength fastOptions) 16 = 16"
    "nullish (opt_hash fastOptions) SHA256 = SHA256"
    by (simp_all add: fastOptions_def nullish_def)
  have low: "(1000::nat) < MIN_ITERATIONS" by (simp add: MIN_ITERATIONS_def)
  have "pbkdf2_verify exampleDeriveBits
           (''$pbkdf2$'' @ (case SHA256 of SHA256 \<Rightarrow> ''sha256'' | SHA512 \<Rightarrow> ''sha512'')
              @ ''$i='' @ decimal 1000 @ ''$l='' @ decimal 32
              @ ''$'' @ encodeBase64UrlNoPadding (zeroRng 16)
              @ ''$'' @ encodeBase64UrlNoPadding ?key)
           ''secret-pw'' = Inr False"
    using low by (rule pbkdf2_verify_low_iterations)
  then have v: "pbkdf2_verify exampleDeriveBits
       ''$pbkdf2$sha256$i=1000$l=32$AAAAAAAAAAAAAAAAAAAAAA$c2VjcmV0LXB3AAAAAAAAAAAAAAAAAAAAAAAAAAAAAAA''
       ''secret-pw'' = Inr False"
    unfolding digest.case example_encodings example_decimals by simp
  have h: "pbkdf2_hash exampleDeriveBits zeroRng fastOptions ''secret-pw''
     = Inr ''$pbkdf2$sha256$i=1000$l=32$AAAAAAAAAAAAAAAAAAAAAA$c2VjcmV0LXB3AAAAAAAAAAAAAAAAAAAAAAAAAAAAAAA''"
    unfolding pbkdf2_hash_stored opts example_key sum.case digest.case
      example_encodings example_decimals
    by simp
  show ?thesis using h v by (simp add: createPbkdf2PasswordHasher_def)
qed


text \<open>
  Distinct passwords cannot all be told apart: the passwords are infinitely many, the
  keys of a given length finitely many.  Whatever \<open>deriveBits\<close> computes, as long as it
  returns keys of the requested length, two distinct passwords exist of which one
  verifies against the hash of the other.
\<close>

lemma pbkdf2_some_passwords_collide:
  assumes it: "MIN_ITERATIONS \<le> nullish (opt_iterations options) 600000"
              "nullish (opt_iterations options) 600000 \<le> MAX_ITERATIONS"
    and kl: "MIN_KEY_LENGTH \<le> nullish (opt_keyLength options) 32"
            "nullish (opt_keyLength options) 32 \<le> MAX_KEY_LENGTH"
    and sl: "MIN_SALT_LENGTH \<le> nullish (opt_saltLength options) 16"
            "nullish (opt_saltLength options) 16 \<le> MAX_SALT_LENGTH"
    and rnd: "length (rng (nullish (opt_saltLength options) 16))
                = nullish (opt_saltLength options) 16"
    and total: "\<forall>pw. \<exists>key.
                  pbkdf2DeriveKeyBytes deriveBits pw (rng (nullish (opt_saltLength options) 16))
                    (nullish (opt_iterations options) 600000) (nullish (opt_hash options) SHA256)
                    (nullish (opt_keyLength options) 32) = Inr key
                  \<and> length key = nullish (opt_keyLength options) 32"
  shows "\<exists>P Q stored. P \<noteq> Q
           \<and> pbkdf2_hash deriveBits rng options P = Inr stored
           \<and> pbkdf2_verify deriveBits stored Q = Inr True"
proof -
  define n where "n = nullish (opt_keyLength options) 32"
  define kdf where "kdf pw = pbkdf2DeriveKeyBytes deriveBits pw
      (rng (nullish (opt_saltLength options) 16)) (nullish (opt_iterations options) 600000)
      (nullish (opt_hash options) SHA256) (nullish (opt_keyLength options) 32)" for pw
  define f where "f pw = projr (kdf pw)" for pw
  have key: "kdf pw = Inr (f pw) \<and> length (f pw) = n" for pw
    using total by (auto simp: kdf_def f_def n_def dest: spec [of _ pw])
  have "range f \<subseteq> {bs. set bs \<subseteq> (UNIV :: byte set) \<and> length bs = n}"
    using key by auto
  moreover have "finite {bs. set bs \<subseteq> (UNIV :: byte set) \<and> length bs = n}"
    by (rule finite_lists_length_eq) simp
  ultimately have fin: "finite (range f)" by (rule finite_subset)
  have "\<not> inj f"
  proof
    assume "inj f"
    with fin have "finite (UNIV :: string set)" by (rule finite_imageD)
    then show False using infinite_UNIV_listI by blast
  qed
  then obtain P Q where ne: "P \<noteq> Q" and eq: "f P = f Q"
    by (auto simp: inj_def)
  have kP: "pbkdf2DeriveKeyBytes deriveBits P (rng (nullish (opt_saltLength options) 16))
              (nullish (opt_iterations options) 600000) (nullish (opt_hash options) SHA256)
              (nullish (opt_keyLength options) 32) = Inr (f P)"
    using key [of P] by (simp add: kdf_def)
  have lP: "length (f P) = nullish (opt_keyLength options) 32"
    using key [of P] by (simp add: n_def)
  note hv = pbkdf2_hash_then_verify [where deriveBits = deriveBits and rng = rng
      and options = options and P = P and keyP = "f P" and Q = Q, OF it kl sl rnd kP lP]
  then obtain stored where "pbkdf2_hash deriveBits rng options P = Inr stored"
    and "pbkdf2_verify deriveBits stored Q = (case kdf Q of Inl e \<Rightarrow> Inl e
             | Inr keyQ \<Rightarrow> Inr (keyQ = f P))"
    by (auto simp: kdf_def)
  then show ?thesis using ne eq key [of Q] by auto
qed

end
